theory Spec2Isabelle
  imports Main
begin

section \<open>Python values and the operating system seen by \<open>nfstest/host.py\<close>\<close>

text \<open>
  The module raises plain \<open>Exception(text)\<close> everywhere; \<open>mtopts[-1]\<close> on an empty
  string raises \<open>IndexError\<close>, and \<open>os.mkdir\<close> raises \<open>OSError\<close>.
\<close>

datatype exn = Exception string | IndexError | OSError

text \<open>
  A \<open>subprocess.Popen\<close> object.  Python compares such objects by identity, so the
  handle carries an identity \<open>hid\<close> (the position of its creation in the event log)
  next to the operating system's process id \<open>pid\<close>.
\<close>

datatype popen = Popen_obj (hid: nat) (pid: nat)

text \<open>
  Everything the module does to the outside world, in the order it happens:
  \<open>Spawn cmd sudo sh p\<close> is the \<open>subprocess.Popen(sh, shell=True, ...)\<close> of \<open>run_cmd\<close>,
  giving the object \<open>p\<close>; next to the string \<open>sh\<close> handed to the shell the event keeps
  the \<open>cmd\<close> and \<open>sudo\<close> arguments \<open>run_cmd\<close> was called with.  \<open>Communicate\<close> is
  \<open>communicate()\<close> followed by \<open>wait()\<close> with the output, the error output and the exit
  status they gave, \<open>Terminate\<close> is \<open>proc.terminate()\<close>, \<open>Reap\<close> is \<open>proc.wait()\<close> of a
  background process with its exit status, \<open>Sleep\<close> is \<open>time.sleep\<close>, \<open>Sync\<close> is
  \<open>libc.sync()\<close>, and the last three are \<open>os.path.exists\<close>, \<open>os.path.isdir\<close> and
  \<open>os.mkdir\<close> with their answers (for \<open>os.mkdir\<close>: whether it succeeded).
\<close>

datatype event =
    Spawn string bool string popen
  | Communicate popen string string int
  | Terminate popen
  | Reap popen int
  | Sleep nat
  | Sync
  | PathExists string bool
  | PathIsdir string bool
  | OsMkdir string bool

text \<open>
  The environment answers every question of the module as a function of the whole
  history of events so far, so the file system and the processes may change in any way
  between two calls.  \<open>getuid\<close> is \<open>os.getuid()\<close>.
\<close>

record env =
  getuid :: nat
  new_pid :: "event list \<Rightarrow> string \<Rightarrow> nat"
  cmd_result :: "event list \<Rightarrow> string \<Rightarrow> string \<times> string \<times> int"
  exit_status :: "event list \<Rightarrow> popen \<Rightarrow> int"
  path_exists :: "event list \<Rightarrow> string \<Rightarrow> bool"
  path_isdir :: "event list \<Rightarrow> string \<Rightarrow> bool"
  os_mkdir :: "event list \<Rightarrow> string \<Rightarrow> bool"

subsection \<open>String helpers of Python\<close>

text \<open>\<open>"%d" % n\<close> for a natural number and for an integer.\<close>

fun str_nat :: "nat \<Rightarrow> string" where
  "str_nat n =
     (if n < 10 then [''0123456789'' ! n]
      else str_nat (n div 10) @ [''0123456789'' ! (n mod 10)])"

declare str_nat.simps [simp del]

definition str_int :: "int \<Rightarrow> string" where
  "str_int i = (if i < 0 then ''-'' @ str_nat (nat (- i)) else str_nat (nat i))"

text \<open>\<open>s.rstrip("/")\<close>.\<close>

definition rstrip_slash :: "string \<Rightarrow> string" where
  "rstrip_slash s = rev (dropWhile (\<lambda>c. c = CHR ''/'') (rev s))"

text \<open>\<open>cmd.replace('"', '\\"')\<close>: a backslash before every double quote.\<close>

definition escape_dquote :: "string \<Rightarrow> string" where
  "escape_dquote cmd = concat (map (\<lambda>c. if c = CHR 0x22 then [CHR 0x5C, CHR 0x22] else [c]) cmd)"

text \<open>\<open>os.path.join(a, b)\<close> of \<open>posixpath\<close>, for two components.\<close>

definition path_join :: "string \<Rightarrow> string \<Rightarrow> string" where
  "path_join a b =
     (if b \<noteq> [] \<and> hd b = CHR ''/'' then b
      else if a = [] \<or> last a = CHR ''/'' then a @ b
      else a @ ''/'' @ b)"

section \<open>The \<open>Host\<close> object\<close>

text \<open>
  The attributes of \<open>Host.__init__\<close>.  The private attributes \<open>_checkmtpoint\<close>,
  \<open>_invalidmtpoint\<close>, \<open>_mtpoint_created\<close> and \<open>_localhost\<close> lose their underscore.
  \<open>fqdn\<close>, \<open>ipaddr\<close> and \<open>libc\<close> are never read by the methods below and are left out;
  debug printing (\<open>dprint\<close> of the base class) is not modelled.
\<close>

record Host =
  host :: string
  user :: "string option"
  server :: string
  nfsversion :: int
  minorversion :: int
  proto :: string
  port :: int
  sec :: string
  export :: string
  mtpoint :: string
  datadir :: string
  mtopts :: string
  interface :: string
  nomount :: bool
  iptables :: string
  sudo :: string
  mtdir :: string
  mounted :: bool
  process_list :: "popen list"
  process_smap :: "nat \<rightharpoonup> int"
  process_dmap :: "nat \<rightharpoonup> string option"
  checkmtpoint :: "string list"
  invalidmtpoint :: "string list"
  mtpoint_created :: "string list"
  need_network_reset :: bool
  localhost :: bool
  process :: "popen option"
  pstdout :: string
  pstderr :: string
  perror :: string
  returncode :: int

subsection \<open>\<open>sudo_cmd\<close> and \<open>run_cmd\<close>\<close>

definition sudo_cmd :: "env \<Rightarrow> Host \<Rightarrow> string \<Rightarrow> string" where
  "sudo_cmd e s cmd = (if getuid e \<noteq> 0 then sudo s @ '' '' @ cmd else cmd)"

text \<open>
  Lines 200 to 210 of \<open>run_cmd\<close>: the string handed to the shell, after the optional
  sudo prefix and, for a remote host, the ssh wrapping.
\<close>

definition shell_cmd :: "env \<Rightarrow> Host \<Rightarrow> string \<Rightarrow> bool \<Rightarrow> string" where
  "shell_cmd e s cmd use_sudo =
     (let usr = (case user s of
                   None \<Rightarrow> ''''
                 | Some u \<Rightarrow> if length u > 0 then u @ ''@'' else '''');
          cmd1 = (if use_sudo then sudo_cmd e s cmd else cmd)
      in if \<not> localhost s
         then ''ssh -t -t '' @ usr @ host s @ [CHR '' '', CHR 0x22] @ escape_dquote cmd1 @ [CHR 0x22]
         else cmd1)"

text \<open>
  \<open>run_cmd(cmd, sudo, dlevel, msg, wait)\<close>.  The result is the exception raised, or the
  value returned: the standard output of a command that was waited for, \<open>None\<close> for a
  command left running in the background.  \<open>msg\<close> only reaches the debug output.
\<close>

definition run_cmd ::
  "env \<Rightarrow> Host \<Rightarrow> string \<Rightarrow> bool \<Rightarrow> string option \<Rightarrow> string \<Rightarrow> bool \<Rightarrow> event list
     \<Rightarrow> (exn + string option) \<times> Host \<times> event list" where
  "run_cmd e s cmd use_sudo dlevel msg wait t =
     (let s0 = s\<lparr>process := None, pstdout := '''', pstderr := '''', perror := '''',
                 returncode := 0\<rparr>;
          c = shell_cmd e s0 cmd use_sudo;
          p = Popen_obj (length t) (new_pid e t c);
          t1 = t @ [Spawn cmd use_sudo c p];
          s1 = s0\<lparr>process := Some p\<rparr>
      in if \<not> wait then
           (Inr None,
            s1\<lparr>process_list := process_list s1 @ [p],
               process_dmap := (process_dmap s1)(pid p \<mapsto> dlevel),
               process_smap := (if use_sudo then (process_smap s1)(pid p \<mapsto> 1)
                                else process_smap s1)\<rparr>,
            t1)
         else
           (case cmd_result e t1 c of (out, err, rc) \<Rightarrow>
              (let t2 = t1 @ [Communicate p out err rc];
                   s2 = s1\<lparr>pstdout := out, pstderr := err, returncode := rc\<rparr>
               in if localhost s2 then
                    (if rc \<noteq> 0 then (Inl (Exception err), s2\<lparr>perror := err\<rparr>, t2)
                     else (Inr (Some out), s2, t2))
                  else if rc = 255 then (Inl (Exception err), s2, t2)
                  else if rc \<noteq> 0 then (Inl (Exception out), s2\<lparr>perror := out\<rparr>, t2)
                  else (Inr (Some out), s2, t2))))"


subsection \<open>The regular expressions the module searches with\<close>

text \<open>
  The two patterns of the module, \<open>not (mounted|found)\<close> and
  \<open>(\svia\s+(\S+))?\sdev\s+(\S+).*\ssrc\s+(\S+)\<close>, use literal characters, the classes
  \<open>\s\<close>, \<open>\S\<close> and \<open>.\<close>, greedy repetition of a class, alternation, an optional group
  and capturing groups.  \<open>rmatch\<close> lists every way the backtracking matcher of \<open>re\<close> can
  match at the start of the text, best first: the text left over and the groups captured.
\<close>

datatype cclass = Lit char | Space | NonSpace | Dot

definition is_space :: "char \<Rightarrow> bool" where
  "is_space c = (c \<in> set [CHR 0x20, CHR 0x09, CHR 0x0A, CHR 0x0D, CHR 0x0C, CHR 0x0B])"

fun cmatch :: "cclass \<Rightarrow> char \<Rightarrow> bool" where
  "cmatch (Lit a) c = (c = a)"
| "cmatch Space c = is_space c"
| "cmatch NonSpace c = (\<not> is_space c)"
| "cmatch Dot c = (c \<noteq> CHR 0x0A)"

datatype regex =
    Eps
  | Atom cclass
  | Star cclass
  | Plus cclass
  | Seq regex regex
  | Alt regex regex
  | Opt regex
  | Group nat regex

type_synonym groups = "nat \<rightharpoonup> string"

fun rmatch :: "regex \<Rightarrow> string \<times> groups \<Rightarrow> (string \<times> groups) list" where
  "rmatch Eps st = [st]"
| "rmatch (Atom c) (s, g) =
     (case s of [] \<Rightarrow> [] | x # xs \<Rightarrow> if cmatch c x then [(xs, g)] else [])"
| "rmatch (Star c) (s, g) =
     map (\<lambda>k. (drop k s, g)) (rev [0 ..< Suc (length (takeWhile (cmatch c) s))])"
| "rmatch (Plus c) (s, g) =
     map (\<lambda>k. (drop k s, g)) (rev [1 ..< Suc (length (takeWhile (cmatch c) s))])"
| "rmatch (Seq a b) st = concat (map (rmatch b) (rmatch a st))"
| "rmatch (Alt a b) st = rmatch a st @ rmatch b st"
| "rmatch (Opt a) st = rmatch a st @ [st]"
| "rmatch (Group n a) (s, g) =
     map (\<lambda>(s', g'). (s', g'(n \<mapsto> take (length s - length s') s))) (rmatch a (s, g))"

text \<open>\<open>re.search\<close>: the best match at the leftmost position that has one.\<close>

fun re_search :: "regex \<Rightarrow> string \<Rightarrow> groups option" where
  "re_search r s =
     (case rmatch r (s, Map.empty) of
        (s', g) # ms \<Rightarrow> Some g
      | [] \<Rightarrow> (case s of [] \<Rightarrow> None | x # xs \<Rightarrow> re_search r xs))"

declare re_search.simps [simp del]

definition lits :: "string \<Rightarrow> regex" where
  "lits s = foldr (\<lambda>c r. Seq (Atom (Lit c)) r) s Eps"

definition seqs :: "regex list \<Rightarrow> regex" where
  "seqs rs = foldr Seq rs Eps"

text \<open>\<open>'not (mounted|found)'\<close> of \<open>umount\<close>.\<close>

definition not_mounted_re :: regex where
  "not_mounted_re = Seq (lits ''not '') (Group 1 (Alt (lits ''mounted'') (lits ''found'')))"

text \<open>\<open>r"(\svia\s+(\S+))?\sdev\s+(\S+).*\ssrc\s+(\S+)"\<close> of \<open>get_route\<close>.\<close>

definition route_re :: regex where
  "route_re =
     seqs [Opt (Group 1 (seqs [Atom Space, lits ''via'', Plus Space, Group 2 (Plus NonSpace)])),
           Atom Space, lits ''dev'', Plus Space, Group 3 (Plus NonSpace),
           Star Dot,
           Atom Space, lits ''src'', Plus Space, Group 4 (Plus NonSpace)]"

subsection \<open>\<open>wait_cmd\<close> and \<open>stop_cmd\<close>\<close>

text \<open>
  The loop of \<open>wait_cmd\<close> over \<open>plist\<close>.  \<open>dlevel\<close> and \<open>out\<close> are the local variables the
  loop carries from one process to the next.  An exception of the \<open>kill\<close> command leaves
  the loop at once.
\<close>

fun wait_loop ::
  "env \<Rightarrow> bool \<Rightarrow> string \<Rightarrow> popen list \<Rightarrow> string option \<Rightarrow> int option \<Rightarrow> Host \<Rightarrow> event list
     \<Rightarrow> (exn + int option) \<times> Host \<times> event list" where
  "wait_loop e terminate msg [] dlevel out s t = (Inr out, s, t)"
| "wait_loop e terminate msg (proc # plist) dlevel out s t =
     (if proc \<in> set (process_list s) then
        (let dlevel1 =
               (case dlevel of
                  None \<Rightarrow> (case process_dmap s (pid proc) of
                             Some (Some d) \<Rightarrow> Some d
                           | _ \<Rightarrow> None)
                | Some d \<Rightarrow> Some d);
             killed =
               (if terminate then
                  (if pid proc \<in> dom (process_smap s) then
                     (case run_cmd e s (''kill '' @ str_nat (pid proc)) True dlevel1 msg True t of
                        (Inl x, s1, t1) \<Rightarrow> (Inl x, s1, t1)
                      | (Inr v, s1, t1) \<Rightarrow>
                          (Inr (), s1\<lparr>process_smap := (process_smap s1)(pid proc := None)\<rparr>, t1))
                   else (Inr (), s, t @ [Terminate proc]))
                else (Inr (), s, t))
         in case killed of
              (Inl x, s2, t2) \<Rightarrow> (Inl x, s2, t2)
            | (Inr u, s2, t2) \<Rightarrow>
                (let rc = exit_status e t2 proc
                 in wait_loop e terminate msg plist dlevel1 (Some rc)
                      (s2\<lparr>process_list := remove1 proc (process_list s2)\<rparr>)
                      (t2 @ [Reap proc rc])))
      else wait_loop e terminate msg plist dlevel out s t)"

definition wait_cmd ::
  "env \<Rightarrow> Host \<Rightarrow> popen option \<Rightarrow> bool \<Rightarrow> string option \<Rightarrow> string \<Rightarrow> event list
     \<Rightarrow> (exn + int option) \<times> Host \<times> event list" where
  "wait_cmd e s proc terminate dlevel msg t =
     (let plist = (case proc of None \<Rightarrow> process_list s | Some p \<Rightarrow> [p])
      in wait_loop e terminate msg plist dlevel None s t)"

definition stop_cmd ::
  "env \<Rightarrow> Host \<Rightarrow> popen option \<Rightarrow> string option \<Rightarrow> string \<Rightarrow> event list
     \<Rightarrow> (exn + int option) \<times> Host \<times> event list" where
  "stop_cmd e s proc dlevel msg t = wait_cmd e s proc True dlevel msg t"

subsection \<open>\<open>_check_mtpoint\<close>\<close>

text \<open>
  The mount point is put on \<open>_checkmtpoint\<close> before anything is looked at.  On a remote
  host the two \<open>test\<close> probes swallow their exceptions and read \<open>self.returncode\<close>.
\<close>

text \<open>
  Lines 310 to 329: does the mount point exist, and is it a directory?  The answer comes
  with the object and the event log after the probes.
\<close>

definition probe_mtpoint ::
  "env \<Rightarrow> Host \<Rightarrow> string \<Rightarrow> event list \<Rightarrow> bool \<times> bool \<times> Host \<times> event list" where
  "probe_mtpoint e s mp t =
     (if localhost s then
        (let exist = path_exists e t mp;
             t1 = t @ [PathExists mp exist]
         in if exist then
              (let isdir = path_isdir e t1 mp
               in (exist, isdir, s, t1 @ [PathIsdir mp isdir]))
            else (exist, True, s, t1))
      else
        (case run_cmd e s (''test -e '' @ [CHR 0x27] @ mp @ [CHR 0x27]) False
                (Some ''DBG4'') ''Check if mount point directory exists: '' True t of
           (r1, s1, t1) \<Rightarrow>
             (let exist = (returncode s1 = 0)
              in if exist then
                   (case run_cmd e s1 (''test -d '' @ [CHR 0x27] @ mp @ [CHR 0x27]) False
                           (Some ''DBG4'') ''Check if mount point is a directory: '' True t1 of
                      (r2, s2, t2) \<Rightarrow> (exist, returncode s2 = 0, s2, t2))
                 else (exist, True, s1, t1))))"

definition check_mtpoint ::
  "env \<Rightarrow> Host \<Rightarrow> string \<Rightarrow> event list \<Rightarrow> (exn + unit) \<times> Host \<times> event list" where
  "check_mtpoint e s mp t =
     (if mp \<in> set (checkmtpoint s) then (Inr (), s, t)
      else
        (case probe_mtpoint e (s\<lparr>checkmtpoint := checkmtpoint s @ [mp]\<rparr>) mp t of
           (exist, isdir, s3, t3) \<Rightarrow>
             if \<not> exist then
               (case run_cmd e s3 (''mkdir -p '' @ mp) True (Some ''DBG3'')
                       ''Creating mount point directory: '' True t3 of
                  (Inl x, s4, t4) \<Rightarrow> (Inl x, s4, t4)
                | (Inr v, s4, t4) \<Rightarrow>
                    (Inr (), s4\<lparr>mtpoint_created := mtpoint_created s4 @ [mp]\<rparr>, t4))
             else if \<not> isdir then
               (Inl (Exception (''Mount point '' @ mp @ '' is not a directory'')),
                s3\<lparr>invalidmtpoint := invalidmtpoint s3 @ [mp]\<rparr>, t3)
             else (Inr (), s3, t3)))"

subsection \<open>\<open>mount\<close>\<close>

text \<open>The keyword arguments of \<open>mount\<close>; an argument left out is \<open>None\<close>.\<close>

record mount_kwargs =
  kw_server :: "string option"
  kw_nfsversion :: "int option"
  kw_minorversion :: "int option"
  kw_proto :: "string option"
  kw_port :: "int option"
  kw_sec :: "string option"
  kw_export :: "string option"
  kw_mtpoint :: "string option"
  kw_datadir :: "string option"
  kw_mtopts :: "string option"

text \<open>\<open>kwargs.pop(key, default)\<close>.\<close>

definition kw_pop :: "'a option \<Rightarrow> 'a \<Rightarrow> 'a" where
  "kw_pop v d = (case v of None \<Rightarrow> d | Some x \<Rightarrow> x)"

text \<open>
  Lines 388 to 401: the export path and the mount options are normalised and the command
  is formatted.  \<open>mtopts[-1]\<close> raises \<open>IndexError\<close> on an empty option string.
\<close>

definition mount_cmd ::
  "int \<Rightarrow> int \<Rightarrow> string \<Rightarrow> string \<Rightarrow> string \<Rightarrow> int \<Rightarrow> string \<Rightarrow> string \<Rightarrow> string \<Rightarrow> exn + string" where
  "mount_cmd nfsversion1 minorversion1 mtopts1 proto1 sec1 port1 server1 export1 mtpoint1 =
     (let export2 = (if length export1 > 1 then rstrip_slash export1 else export1)
      in if mtopts1 = [] then Inl IndexError
         else
           (let mtopts2 = (if last mtopts1 \<noteq> CHR '','' then mtopts1 @ '','' else mtopts1);
                minorversion_str =
                  (if nfsversion1 = 4 then ''minorversion='' @ str_int minorversion1 @ '',''
                   else [])
            in Inr (''mount -o vers='' @ str_int nfsversion1 @ '','' @ minorversion_str @ mtopts2
                    @ ''proto='' @ proto1 @ '',sec='' @ sec1 @ '',port='' @ str_int port1
                    @ '' '' @ server1 @ '':'' @ export2 @ '' '' @ mtpoint1)))"

text \<open>Lines 407 to 419: the data directory is created when it does not exist.\<close>

definition create_datadir :: "env \<Rightarrow> Host \<Rightarrow> event list \<Rightarrow> (exn + unit) \<times> Host \<times> event list" where
  "create_datadir e s t =
     (if localhost s then
        (let exist = path_exists e t (mtdir s);
             t1 = t @ [PathExists (mtdir s) exist]
         in if \<not> exist then
              (let ok = os_mkdir e t1 (mtdir s);
                   t2 = t1 @ [OsMkdir (mtdir s) ok]
               in if ok then (Inr (), s, t2) else (Inl OSError, s, t2))
            else (Inr (), s, t1))
      else
        (case run_cmd e s (''test -e '' @ [CHR 0x27] @ mtdir s @ [CHR 0x27]) False
                (Some ''DBG4'') ''Check if data directory exists: '' True t of
           (r1, s1, t1) \<Rightarrow>
             if returncode s1 \<noteq> 0 then
               (case run_cmd e s1 (''mkdir -m 0777 -p '' @ mtdir s1) False (Some ''DBG3'')
                       ''Creating data directory: '' True t1 of
                  (Inl x, s2, t2) \<Rightarrow> (Inl x, s2, t2)
                | (Inr v, s2, t2) \<Rightarrow> (Inr (), s2, t2))
             else (Inr (), s1, t1)))"

text \<open>Lines 379 to 382: the data directory \<open>self.mtdir\<close>.\<close>

definition mount_mtdir :: "string \<Rightarrow> string \<Rightarrow> string" where
  "mount_mtdir mtpoint1 datadir1 =
     (if length datadir1 > 0 then path_join mtpoint1 datadir1 else mtpoint1)"

definition mount ::
  "env \<Rightarrow> Host \<Rightarrow> mount_kwargs \<Rightarrow> event list \<Rightarrow> (exn + string option) \<times> Host \<times> event list" where
  "mount e s kw t =
     (let server1 = kw_pop (kw_server kw) (server s);
          nfsversion1 = kw_pop (kw_nfsversion kw) (nfsversion s);
          minorversion1 = kw_pop (kw_minorversion kw) (minorversion s);
          proto1 = kw_pop (kw_proto kw) (proto s);
          port1 = kw_pop (kw_port kw) (port s);
          sec1 = kw_pop (kw_sec kw) (sec s);
          export1 = kw_pop (kw_export kw) (export s);
          mtpoint0 = kw_pop (kw_mtpoint kw) (mtpoint s);
          datadir1 = kw_pop (kw_datadir kw) (datadir s);
          mtopts1 = kw_pop (kw_mtopts kw) (mtopts s);
          mtpoint1 = rstrip_slash mtpoint0;
          s1 = s\<lparr>mtdir := mount_mtdir mtpoint1 datadir1\<rparr>
      in case check_mtpoint e s1 mtpoint1 t of
           (Inl x, s2, t2) \<Rightarrow> (Inl x, s2, t2)
         | (Inr u, s2, t2) \<Rightarrow>
             if nomount s2 \<or> mtpoint1 \<in> set (invalidmtpoint s2) then (Inr None, s2, t2)
             else
               (case mount_cmd nfsversion1 minorversion1 mtopts1 proto1 sec1 port1 server1
                       export1 mtpoint1 of
                  Inl x \<Rightarrow> (Inl x, s2, t2)
                | Inr cmd \<Rightarrow>
                    (case run_cmd e s2 cmd True (Some ''DBG2'') ''Mount volume: '' True t2 of
                       (Inl x, s3, t3) \<Rightarrow> (Inl x, s3, t3)
                     | (Inr v, s3, t3) \<Rightarrow>
                         (case create_datadir e (s3\<lparr>mounted := True, mtpoint := mtpoint1\<rparr>) t3 of
                            (Inl x, s4, t4) \<Rightarrow> (Inl x, s4, t4)
                          | (Inr u', s4, t4) \<Rightarrow> (Inr (Some mtpoint1), s4, t4)))))"

subsection \<open>\<open>umount\<close>\<close>

text \<open>
  The loop \<open>for i in range(5)\<close> of \<open>umount\<close>, with the number of rounds left: sleep one
  second, run the command with its exception swallowed, stop on success.
\<close>

fun umount_loop :: "env \<Rightarrow> string \<Rightarrow> nat \<Rightarrow> Host \<Rightarrow> event list \<Rightarrow> Host \<times> event list" where
  "umount_loop e cmd 0 s t = (s, t)"
| "umount_loop e cmd (Suc n) s t =
     (case run_cmd e s cmd True (Some ''DBG2'') ''Unmount volume: '' True (t @ [Sleep 1]) of
        (r, s1, t1) \<Rightarrow>
          if returncode s1 = 0 \<or> re_search not_mounted_re (perror s1) \<noteq> None
          then (s1\<lparr>mounted := False\<rparr>, t1)
          else umount_loop e cmd n s1 t1)"

definition umount :: "env \<Rightarrow> Host \<Rightarrow> event list \<Rightarrow> (exn + unit) \<times> Host \<times> event list" where
  "umount e s t =
     (if nomount s then (Inr (), s, t)
      else
        (case check_mtpoint e s (mtpoint s) t of
           (Inl x, s1, t1) \<Rightarrow> (Inl x, s1, t1)
         | (Inr u, s1, t1) \<Rightarrow>
             if mtpoint s1 \<in> set (invalidmtpoint s1) then (Inr (), s1, t1)
             else
               (case umount_loop e (''umount -f '' @ mtpoint s1) 5 s1 (t1 @ [Sync]) of
                  (s2, t2) \<Rightarrow> (Inr (), s2, t2))))"

subsection \<open>\<open>network_drop\<close>, \<open>network_reset\<close> and \<open>get_route\<close>\<close>

definition network_drop ::
  "env \<Rightarrow> Host \<Rightarrow> string \<Rightarrow> int \<Rightarrow> event list \<Rightarrow> (exn + unit) \<times> Host \<times> event list" where
  "network_drop e s ipaddr port1 t =
     (case run_cmd e (s\<lparr>need_network_reset := True\<rparr>)
             (iptables s @ '' -A OUTPUT -p tcp -d '' @ ipaddr @ '' --dport '' @ str_int port1
              @ '' -j DROP'')
             True (Some ''DBG6'') ''Network drop: '' True t of
        (Inl x, s1, t1) \<Rightarrow> (Inl x, s1, t1)
      | (Inr v, s1, t1) \<Rightarrow> (Inr (), s1, t1))"

definition network_reset :: "env \<Rightarrow> Host \<Rightarrow> event list \<Rightarrow> Host \<times> event list" where
  "network_reset e s t =
     (case run_cmd e s (iptables s @ '' --flush'') True (Some ''DBG6'') ''Network reset: '' True t of
        (r1, s1, t1) \<Rightarrow>
          (case run_cmd e s1 (iptables s1 @ '' --delete-chain'') True (Some ''DBG6'')
                  ''Network reset: '' True t1 of
             (r2, s2, t2) \<Rightarrow> (s2, t2)))"

text \<open>
  \<open>get_route\<close> returns \<open>regex.groups()[1:]\<close>, the groups 2, 3 and 4; every exception, and a
  text the pattern is not found in, gives three times \<open>None\<close>.
\<close>

definition parse_route :: "string \<Rightarrow> string option \<times> string option \<times> string option" where
  "parse_route out =
     (case re_search route_re out of
        Some g \<Rightarrow> (g 2, g 3, g 4)
      | None \<Rightarrow> (None, None, None))"

definition get_route ::
  "env \<Rightarrow> Host \<Rightarrow> string \<Rightarrow> event list
     \<Rightarrow> (string option \<times> string option \<times> string option) \<times> Host \<times> event list" where
  "get_route e s ipaddr t =
     (case run_cmd e s (''ip route get '' @ ipaddr) False (Some ''DBG1'') ''Get routing info: ''
             True t of
        (Inl x, s1, t1) \<Rightarrow> ((None, None, None), s1, t1)
      | (Inr None, s1, t1) \<Rightarrow> ((None, None, None), s1, t1)
      | (Inr (Some out), s1, t1) \<Rightarrow> (parse_route out, s1, t1))"

subsection \<open>\<open>__del__\<close>\<close>

fun rmdir_loop :: "env \<Rightarrow> string list \<Rightarrow> Host \<Rightarrow> event list \<Rightarrow> Host \<times> event list" where
  "rmdir_loop e [] s t = (s, t)"
| "rmdir_loop e (m # ms) s t =
     (case run_cmd e s (''rmdir '' @ m) True (Some ''DBG3'')
             ''Removing mount point directory: '' True t of
        (r, s1, t1) \<Rightarrow> rmdir_loop e ms s1 t1)"

definition del :: "env \<Rightarrow> Host \<Rightarrow> event list \<Rightarrow> (exn + unit) \<times> Host \<times> event list" where
  "del e s t =
     (case (if need_network_reset s then network_reset e s t else (s, t)) of
        (s1, t1) \<Rightarrow>
          (case (if mounted s1 then umount e s1 t1 else (Inr (), s1, t1)) of
             (Inl x, s2, t2) \<Rightarrow> (Inl x, s2, t2)
           | (Inr u, s2, t2) \<Rightarrow>
               (case rmdir_loop e (mtpoint_created s2) s2 t2 of
                  (s3, t3) \<Rightarrow> (Inr (), s3, t3))))"

subsection \<open>A session\<close>

text \<open>
  One call of a public method (or of the validator) takes the object and the event log
  from one state to the next, whether it returns or raises.
\<close>

inductive step :: "env \<Rightarrow> Host \<times> event list \<Rightarrow> Host \<times> event list \<Rightarrow> bool" for e where
  step_run_cmd: "run_cmd e s cmd use_sudo dlevel msg wait t = (r, s', t') \<Longrightarrow> step e (s, t) (s', t')"
| step_wait_cmd: "wait_cmd e s proc terminate dlevel msg t = (r, s', t') \<Longrightarrow> step e (s, t) (s', t')"
| step_stop_cmd: "stop_cmd e s proc dlevel msg t = (r, s', t') \<Longrightarrow> step e (s, t) (s', t')"
| step_check_mtpoint: "check_mtpoint e s mp t = (r, s', t') \<Longrightarrow> step e (s, t) (s', t')"
| step_mount: "mount e s kw t = (r, s', t') \<Longrightarrow> step e (s, t) (s', t')"
| step_umount: "umount e s t = (r, s', t') \<Longrightarrow> step e (s, t) (s', t')"
| step_network_drop: "network_drop e s ipaddr port1 t = (r, s', t') \<Longrightarrow> step e (s, t) (s', t')"
| step_network_reset: "network_reset e s t = (s', t') \<Longrightarrow> step e (s, t) (s', t')"
| step_get_route: "get_route e s ipaddr t = (r3, s', t') \<Longrightarrow> step e (s, t) (s', t')"

text \<open>
  \<open>Host(host=h)\<close> with the defaults the docstring of \<open>__init__\<close> documents (the module
  \<open>nfstest_config\<close> that holds them is not part of the sources).
\<close>

definition new_host :: "string \<Rightarrow> Host" where
  "new_host h =
     \<lparr>host = h, user = Some [], server = [], nfsversion = 4, minorversion = 1,
      proto = ''tcp'', port = 2049, sec = ''sys'', export = ''/'', mtpoint = ''/mnt/t'',
      datadir = [], mtopts = ''hard,rsize=4096,wsize=4096'', interface = ''eth0'',
      nomount = False, iptables = ''/usr/sbin/iptables'', sudo = ''/usr/bin/sudo'',
      mtdir = ''/mnt/t'', mounted = False, process_list = [], process_smap = Map.empty,
      process_dmap = Map.empty, checkmtpoint = [], invalidmtpoint = [],
      mtpoint_created = [], need_network_reset = False,
      localhost = (\<not> length h > 0), process = None, pstdout = [], pstderr = [],
      perror = [], returncode = 0\<rparr>"

text \<open>No keyword argument given.\<close>

definition no_kwargs :: mount_kwargs where
  "no_kwargs =
     \<lparr>kw_server = None, kw_nfsversion = None, kw_minorversion = None, kw_proto = None,
      kw_port = None, kw_sec = None, kw_export = None, kw_mtpoint = None,
      kw_datadir = None, kw_mtopts = None\<rparr>"

text \<open>
  Environments to run the methods in: the caller is \<open>root\<close> or not, every command gives the
  result \<open>res\<close> (its output, its error output and its exit status) and every background
  process exits with 0; every path exists, as a directory or not.
\<close>

definition env_const :: "nat \<Rightarrow> string \<times> string \<times> int \<Rightarrow> bool \<Rightarrow> env" where
  "env_const uid res isdir =
     \<lparr>getuid = uid, new_pid = (\<lambda>t c. 4000 + length t), cmd_result = (\<lambda>t c. res),
      exit_status = (\<lambda>t p. 0), path_exists = (\<lambda>t p. True), path_isdir = (\<lambda>t p. isdir),
      os_mkdir = (\<lambda>t p. True)\<rparr>"


subsection \<open>Reading the event log of \<open>umount\<close>\<close>

text \<open>
  The attempts of \<open>umount\<close> as the event log shows them: each attempt is a sleep of one
  second, the start of the command \<open>cmd\<close> with sudo, and the answer of its process.
  \<open>parse_attempts\<close> reads a log that consists of such attempts and gives their answers
  (output, error output, exit status), and \<open>None\<close> for any other log.
\<close>

fun parse_attempts :: "string \<Rightarrow> event list \<Rightarrow> (string \<times> string \<times> int) list option" where
  "parse_attempts cmd [] = Some []"
| "parse_attempts cmd (Sleep n # Spawn c sd sh p # Communicate q out err rc # rest) =
     (if n = 1 \<and> c = cmd \<and> sd \<and> q = p
      then map_option ((#) (out, err, rc)) (parse_attempts cmd rest)
      else None)"
| "parse_attempts cmd (ev # rest) = None"

text \<open>
  The error text a blocking \<open>run_cmd\<close> leaves in \<open>perror\<close> (lines 198 and 223 to 235), as a
  function of the answer of the process: on the local host the error output of a failed
  command, on a remote host the output of a command that failed with a status other than
  255, and the empty string otherwise.
\<close>

definition recorded_error :: "bool \<Rightarrow> string \<times> string \<times> int \<Rightarrow> string" where
  "recorded_error local a =
     (case a of (out, err, rc) \<Rightarrow>
        if rc = 0 then [] else if local then err else if rc = 255 then [] else out)"

text \<open>
  An attempt counts as a success when its exit status is zero or the recorded error text
  matches \<open>not (mounted|found)\<close>.
\<close>

definition attempt_ok :: "bool \<Rightarrow> string \<times> string \<times> int \<Rightarrow> bool" where
  "attempt_ok local a =
     (snd (snd a) = 0 \<or> re_search not_mounted_re (recorded_error local a) \<noteq> None)"

text \<open>
  An environment in which every command fails with the status 1 and the error output
  \<open>device is busy\<close> until the caller has slept \<open>k\<close> times, and succeeds from then on.
\<close>

definition env_busy :: "nat \<Rightarrow> env" where
  "env_busy k =
     \<lparr>getuid = 0, new_pid = (\<lambda>t c. 4000 + length t),
      cmd_result = (\<lambda>t c. if length (filter (\<lambda>ev. ev = Sleep 1) t) < k
                            then ([], ''umount: /mnt/t: device is busy'', 1) else ([], [], 0)),
      exit_status = (\<lambda>t p. 0), path_exists = (\<lambda>t p. True), path_isdir = (\<lambda>t p. True),
      os_mkdir = (\<lambda>t p. True)\<rparr>"

subsection \<open>Which groups a pattern fills\<close>

text \<open>
  \<open>sets_group n r\<close>: every match of \<open>r\<close> goes through the group \<open>n\<close>;
  \<open>has_group n r\<close>: the group \<open>n\<close> occurs in \<open>r\<close>.
\<close>

fun sets_group :: "nat \<Rightarrow> regex \<Rightarrow> bool" where
  "sets_group n (Seq a b) = (sets_group n a \<or> sets_group n b)"
| "sets_group n (Alt a b) = (sets_group n a \<and> sets_group n b)"
| "sets_group n (Group m a) = (m = n \<or> sets_group n a)"
| "sets_group n r = False"

fun has_group :: "nat \<Rightarrow> regex \<Rightarrow> bool" where
  "has_group n (Seq a b) = (has_group n a \<or> has_group n b)"
| "has_group n (Alt a b) = (has_group n a \<or> has_group n b)"
| "has_group n (Opt a) = has_group n a"
| "has_group n (Group m a) = (m = n \<or> has_group n a)"
| "has_group n r = False"

subsection \<open>Reading the commands off the event log\<close>




subsection \<open>Reading the existence checks off the event log\<close>

text \<open>
  The events in which the validator asks whether the path \<open>p\<close> exists:
  \<open>os.path.exists(p)\<close> on the local host, the command \<open>test -e 'p'\<close> on a remote one.
\<close>

fun exists_probe :: "string \<Rightarrow> event \<Rightarrow> bool" where
  "exists_probe p (PathExists q b) = (q = p)"
| "exists_probe p (Spawn c sd sh pr) = (c = ''test -e '' @ [CHR 0x27] @ p @ [CHR 0x27])"
| "exists_probe p ev = False"

subsection \<open>The registry and the event log\<close>

text \<open>
  Every \<open>Popen\<close> object in \<open>process_list\<close> was created at an earlier position of the
  event log.  This holds in a new session and is kept by every method, so the object of
  a process that is started now is never in \<open>process_list\<close> already.
\<close>

definition reg_ok :: "Host \<Rightarrow> event list \<Rightarrow> bool" where
  "reg_ok s t = (\<forall>q\<in>set (process_list s). hid q < length t)"

section \<open>Properties\<close>

subsection \<open>\<open>run_cmd\<close>\<close>

lemma shell_cmd_reset:
  "shell_cmd e (s\<lparr>process := None, pstdout := [], pstderr := [], perror := [],
                  returncode := 0\<rparr>) cmd sd = shell_cmd e s cmd sd"
  by (simp add: shell_cmd_def sudo_cmd_def)

text \<open>A command that is waited for, given what the process answers.\<close>

lemma run_cmd_wait:
  assumes "cmd_result e (t @ [Spawn cmd sd (shell_cmd e s cmd sd)
             (Popen_obj (length t) (new_pid e t (shell_cmd e s cmd sd)))])
             (shell_cmd e s cmd sd) = (out, err, rc)"
  shows "run_cmd e s cmd sd dlevel msg True t =
     (let c = shell_cmd e s cmd sd; p = Popen_obj (length t) (new_pid e t c);
          s2 = s\<lparr>process := Some p, pstdout := out, pstderr := err, returncode := rc\<rparr>;
          t2 = t @ [Spawn cmd sd c p, Communicate p out err rc]
      in if localhost s then
           (if rc \<noteq> 0 then (Inl (Exception err), s2\<lparr>perror := err\<rparr>, t2)
            else (Inr (Some out), s2\<lparr>perror := []\<rparr>, t2))
         else if rc = 255 then (Inl (Exception err), s2\<lparr>perror := []\<rparr>, t2)
         else if rc \<noteq> 0 then (Inl (Exception out), s2\<lparr>perror := out\<rparr>, t2)
         else (Inr (Some out), s2\<lparr>perror := []\<rparr>, t2))"
  unfolding run_cmd_def Let_def shell_cmd_reset using assms by simp

text \<open>A command that is left running.\<close>

lemma run_cmd_nowait:
  "run_cmd e s cmd sd dlevel msg False t =
     (let c = shell_cmd e s cmd sd; p = Popen_obj (length t) (new_pid e t c)
      in (Inr None,
          s\<lparr>process := Some p, pstdout := [], pstderr := [], perror := [], returncode := 0,
            process_list := process_list s @ [p],
            process_dmap := (process_dmap s)(pid p \<mapsto> dlevel),
            process_smap := (if sd then (process_smap s)(pid p \<mapsto> 1) else process_smap s)\<rparr>,
          t @ [Spawn cmd sd c p]))"
  unfolding run_cmd_def Let_def shell_cmd_reset by simp

text \<open>
  C1: a blocking \<open>run_cmd\<close> whose process gives the output \<open>out\<close>, the error output \<open>err\<close>
  and the exit status \<open>rc\<close>.  On the local host a non-zero status raises the exception
  with \<open>err\<close>, which is also recorded in \<open>perror\<close>; on a remote host the status 255 raises
  the exception with \<open>err\<close>, every other non-zero status raises it with \<open>out\<close>, which is
  also recorded in \<open>perror\<close>; the status zero returns \<open>out\<close>.
\<close>

theorem run_cmd_blocking:
  fixes e s cmd sd t
  defines "c \<equiv> shell_cmd e s cmd sd"
  defines "p \<equiv> Popen_obj (length t) (new_pid e t c)"
  assumes res: "cmd_result e (t @ [Spawn cmd sd c p]) c = (out, err, rc)"
    and run: "run_cmd e s cmd sd dlevel msg True t = (r, s', t')"
  shows "t' = t @ [Spawn cmd sd c p, Communicate p out err rc]
       \<and> (localhost s \<and> rc \<noteq> 0 \<longrightarrow> r = Inl (Exception err) \<and> perror s' = err)
       \<and> (\<not> localhost s \<and> rc = 255 \<longrightarrow> r = Inl (Exception err))
       \<and> (\<not> localhost s \<and> rc \<noteq> 0 \<and> rc \<noteq> 255 \<longrightarrow> r = Inl (Exception out) \<and> perror s' = out)
       \<and> (rc = 0 \<longrightarrow> r = Inr (Some out))"
  using run unfolding run_cmd_wait [OF res [unfolded c_def p_def]] c_def p_def Let_def
  by (auto split: if_splits)

theorem run_cmd_blocking_witness:
  "cmd_result (env_const 0 (''out'', ''err'', 2) True)
     ([] @ [Spawn ''ls'' False (shell_cmd (env_const 0 (''out'', ''err'', 2) True) (new_host []) ''ls'' False)
        (Popen_obj (length ([]::event list))
           (new_pid (env_const 0 (''out'', ''err'', 2) True) []
              (shell_cmd (env_const 0 (''out'', ''err'', 2) True) (new_host []) ''ls'' False)))])
     (shell_cmd (env_const 0 (''out'', ''err'', 2) True) (new_host []) ''ls'' False)
     = (''out'', ''err'', 2)
   \<and> localhost (new_host [])
   \<and> fst (run_cmd (env_const 0 (''out'', ''err'', 2) True) (new_host []) ''ls'' False
            (Some ''DBG1'') [] True []) = Inl (Exception ''err'')
   \<and> perror (fst (snd (run_cmd (env_const 0 (''out'', ''err'', 2) True) (new_host []) ''ls'' False
            (Some ''DBG1'') [] True []))) = ''err''"
proof -
  let ?e = "env_const 0 (''out'', ''err'', 2) True"
  let ?run = "run_cmd ?e (new_host []) ''ls'' False (Some ''DBG1'') [] True []"
  have res: "cmd_result ?e
     ([] @ [Spawn ''ls'' False (shell_cmd ?e (new_host []) ''ls'' False)
        (Popen_obj (length ([]::event list))
           (new_pid ?e [] (shell_cmd ?e (new_host []) ''ls'' False)))])
     (shell_cmd ?e (new_host []) ''ls'' False) = (''out'', ''err'', 2)"
    by (simp add: env_const_def)
  have run: "?run = (fst ?run, fst (snd ?run), snd (snd ?run))"
    by simp
  have loc: "localhost (new_host [])"
    by (simp add: new_host_def)
  from run_cmd_blocking [OF res run] loc res show ?thesis
    by simp
qed

text \<open>
  C10: a blocking \<open>run_cmd\<close> on a remote host whose process exits with the status 255
  raises the exception with the error output, while \<open>perror\<close> keeps the empty string it
  was given when the call began.
\<close>

theorem run_cmd_ssh_error:
  fixes e s cmd sd t
  defines "c \<equiv> shell_cmd e s cmd sd"
  defines "p \<equiv> Popen_obj (length t) (new_pid e t c)"
  assumes remote: "\<not> localhost s"
    and res: "cmd_result e (t @ [Spawn cmd sd c p]) c = (out, err, 255)"
    and run: "run_cmd e s cmd sd dlevel msg True t = (r, s', t')"
  shows "r = Inl (Exception err) \<and> perror s' = [] \<and> pstderr s' = err \<and> pstdout s' = out
       \<and> returncode s' = 255"
  using run remote unfolding run_cmd_wait [OF res [unfolded c_def p_def]] c_def p_def Let_def
  by (auto split: if_splits)

theorem run_cmd_ssh_error_witness:
  "\<not> localhost (new_host ''10.0.0.7'')
   \<and> fst (run_cmd (env_const 0 (''out'', ''ssh: connect failed'', 255) True) (new_host ''10.0.0.7'')
            ''ls'' False (Some ''DBG1'') [] True []) = Inl (Exception ''ssh: connect failed'')
   \<and> perror (fst (snd (run_cmd (env_const 0 (''out'', ''ssh: connect failed'', 255) True)
            (new_host ''10.0.0.7'') ''ls'' False (Some ''DBG1'') [] True []))) = []"
proof -
  let ?e = "env_const 0 (''out'', ''ssh: connect failed'', 255) True"
  let ?s = "new_host ''10.0.0.7''"
  let ?run = "run_cmd ?e ?s ''ls'' False (Some ''DBG1'') [] True []"
  have res: "cmd_result ?e
     ([] @ [Spawn ''ls'' False (shell_cmd ?e ?s ''ls'' False)
        (Popen_obj (length ([]::event list)) (new_pid ?e [] (shell_cmd ?e ?s ''ls'' False)))])
     (shell_cmd ?e ?s ''ls'' False) = (''out'', ''ssh: connect failed'', 255)"
    by (simp add: env_const_def)
  have run: "?run = (fst ?run, fst (snd ?run), snd (snd ?run))"
    by simp
  have remote: "\<not> localhost ?s"
    by (simp add: new_host_def)
  from run_cmd_ssh_error [OF remote res run] remote show ?thesis
    by simp
qed

text \<open>
  C6, as the code has it: a \<open>run_cmd\<close> with \<open>wait=False\<close> returns \<open>None\<close> at once, with
  nothing but the start of the process in the event log.  The object of the process is
  left in the attribute \<open>process\<close> and appended to \<open>process_list\<close>; \<open>process_dmap\<close> takes
  the debug level under the process id, and \<open>process_smap\<close> takes the process id when
  \<open>sudo\<close> was asked for and is left as it was otherwise.
\<close>

theorem run_cmd_background:
  fixes e s cmd sd t
  defines "c \<equiv> shell_cmd e s cmd sd"
  defines "p \<equiv> Popen_obj (length t) (new_pid e t c)"
  assumes run: "run_cmd e s cmd sd dlevel msg False t = (r, s', t')"
  shows "r = Inr None \<and> t' = t @ [Spawn cmd sd c p] \<and> process s' = Some p
       \<and> process_list s' = process_list s @ [p]
       \<and> process_dmap s' = (process_dmap s)(pid p \<mapsto> dlevel)
       \<and> process_smap s' = (if sd then (process_smap s)(pid p \<mapsto> 1) else process_smap s)"
  using run unfolding run_cmd_nowait c_def p_def Let_def by auto

theorem run_cmd_background_witness:
  "fst (run_cmd (env_const 1000 ([], [], 0) True) (new_host []) ''tcpdump'' True (Some ''DBG1'') []
          False []) = Inr None
   \<and> snd (snd (run_cmd (env_const 1000 ([], [], 0) True) (new_host []) ''tcpdump'' True
          (Some ''DBG1'') [] False []))
       = [Spawn ''tcpdump'' True ''/usr/bin/sudo tcpdump'' (Popen_obj 0 4000)]
   \<and> process_list (fst (snd (run_cmd (env_const 1000 ([], [], 0) True) (new_host []) ''tcpdump''
          True (Some ''DBG1'') [] False []))) = [Popen_obj 0 4000]"
proof -
  let ?e = "env_const 1000 ([], [], 0) True"
  let ?run = "run_cmd ?e (new_host []) ''tcpdump'' True (Some ''DBG1'') [] False []"
  have run: "?run = (fst ?run, fst (snd ?run), snd (snd ?run))"
    by simp
  have sh: "shell_cmd ?e (new_host []) ''tcpdump'' True = ''/usr/bin/sudo tcpdump''"
    by (simp add: shell_cmd_def sudo_cmd_def env_const_def new_host_def)
  have pl: "process_list (new_host []) = []"
    by (simp add: new_host_def)
  have np: "new_pid ?e [] ''/usr/bin/sudo tcpdump'' = 4000"
    by (simp add: env_const_def)
  from run_cmd_background [OF run] show ?thesis
    unfolding sh pl by (simp add: np)
qed

text \<open>
  The claim C6 as it is written fails: the call does not return the object of the
  process, it returns \<open>None\<close>.
\<close>

theorem run_cmd_background_returns_None:
  "fst (run_cmd (env_const 0 ([], [], 0) True) (new_host []) ''tcpdump'' False (Some ''DBG1'') []
          False []) = Inr None
   \<and> process (fst (snd (run_cmd (env_const 0 ([], [], 0) True) (new_host []) ''tcpdump'' False
          (Some ''DBG1'') [] False []))) = Some (Popen_obj 0 4000)"
  by (simp add: run_cmd_nowait Let_def env_const_def)

subsection \<open>What the methods leave alone\<close>

text \<open>\<open>run_cmd\<close> changes nothing but its own attributes and the registry of processes.\<close>

lemma run_cmd_frame:
  "host (fst (snd (run_cmd e s cmd sd dl msg w t))) = host s"
  "user (fst (snd (run_cmd e s cmd sd dl msg w t))) = user s"
  "sudo (fst (snd (run_cmd e s cmd sd dl msg w t))) = sudo s"
  "localhost (fst (snd (run_cmd e s cmd sd dl msg w t))) = localhost s"
  "nomount (fst (snd (run_cmd e s cmd sd dl msg w t))) = nomount s"
  "iptables (fst (snd (run_cmd e s cmd sd dl msg w t))) = iptables s"
  "mtpoint (fst (snd (run_cmd e s cmd sd dl msg w t))) = mtpoint s"
  "mtdir (fst (snd (run_cmd e s cmd sd dl msg w t))) = mtdir s"
  "mounted (fst (snd (run_cmd e s cmd sd dl msg w t))) = mounted s"
  "checkmtpoint (fst (snd (run_cmd e s cmd sd dl msg w t))) = checkmtpoint s"
  "invalidmtpoint (fst (snd (run_cmd e s cmd sd dl msg w t))) = invalidmtpoint s"
  "mtpoint_created (fst (snd (run_cmd e s cmd sd dl msg w t))) = mtpoint_created s"
  "need_network_reset (fst (snd (run_cmd e s cmd sd dl msg w t))) = need_network_reset s"
  unfolding run_cmd_def Let_def shell_cmd_reset
  by (simp_all add: split_beta)

subsection \<open>The list of checked mount points only grows\<close>

lemma check_mtpoint_known:
  "mp \<in> set (checkmtpoint s) \<Longrightarrow> check_mtpoint e s mp t = (Inr (), s, t)"
  by (simp add: check_mtpoint_def)

lemma probe_mtpoint_frame:
  "host (fst (snd (snd (probe_mtpoint e s mp t)))) = host s"
  "user (fst (snd (snd (probe_mtpoint e s mp t)))) = user s"
  "sudo (fst (snd (snd (probe_mtpoint e s mp t)))) = sudo s"
  "localhost (fst (snd (snd (probe_mtpoint e s mp t)))) = localhost s"
  "nomount (fst (snd (snd (probe_mtpoint e s mp t)))) = nomount s"
  "iptables (fst (snd (snd (probe_mtpoint e s mp t)))) = iptables s"
  "mtpoint (fst (snd (snd (probe_mtpoint e s mp t)))) = mtpoint s"
  "mtdir (fst (snd (snd (probe_mtpoint e s mp t)))) = mtdir s"
  "mounted (fst (snd (snd (probe_mtpoint e s mp t)))) = mounted s"
  "checkmtpoint (fst (snd (snd (probe_mtpoint e s mp t)))) = checkmtpoint s"
  "invalidmtpoint (fst (snd (snd (probe_mtpoint e s mp t)))) = invalidmtpoint s"
  "mtpoint_created (fst (snd (snd (probe_mtpoint e s mp t)))) = mtpoint_created s"
  "need_network_reset (fst (snd (snd (probe_mtpoint e s mp t)))) = need_network_reset s"
  unfolding probe_mtpoint_def Let_def
  by (simp_all add: split_beta run_cmd_frame)

lemma check_mtpoint_checked:
  "set (checkmtpoint (fst (snd (check_mtpoint e s mp t)))) = insert mp (set (checkmtpoint s))"
  unfolding check_mtpoint_def
  by (auto simp add: split_beta run_cmd_frame probe_mtpoint_frame split: sum.split)

lemma wait_loop_checked:
  "checkmtpoint (fst (snd (wait_loop e tm msg plist dl out s t))) = checkmtpoint s"
proof (induction plist arbitrary: tm dl out s t)
  case Nil
  show ?case by simp
next
  case (Cons proc plist)
  show ?case
    by (simp add: Let_def split_beta run_cmd_frame Cons.IH split: sum.split)
qed

lemma umount_loop_checked:
  "checkmtpoint (fst (umount_loop e cmd n s t)) = checkmtpoint s"
proof (induction n arbitrary: s t)
  case 0
  show ?case by simp
next
  case (Suc n)
  show ?case
    by (simp add: split_beta run_cmd_frame Suc.IH)
qed

lemma create_datadir_checked:
  "checkmtpoint (fst (snd (create_datadir e s t))) = checkmtpoint s"
  unfolding create_datadir_def Let_def
  by (simp add: split_beta run_cmd_frame split: sum.split)

lemma mount_checked:
  "set (checkmtpoint s) \<subseteq> set (checkmtpoint (fst (snd (mount e s kw t))))"
  unfolding mount_def Let_def
  by (auto simp add: split_beta run_cmd_frame create_datadir_checked check_mtpoint_checked
       split: sum.split)

lemma umount_checked:
  "set (checkmtpoint s) \<subseteq> set (checkmtpoint (fst (snd (umount e s t))))"
  unfolding umount_def
  by (auto simp add: split_beta umount_loop_checked check_mtpoint_checked split: sum.split)

lemma network_checked:
  "checkmtpoint (fst (snd (network_drop e s ip pt t))) = checkmtpoint s"
  "checkmtpoint (fst (network_reset e s t)) = checkmtpoint s"
  "checkmtpoint (fst (snd (get_route e s ip t))) = checkmtpoint s"
  unfolding network_drop_def network_reset_def get_route_def
  by (simp_all add: split_beta run_cmd_frame split: sum.split option.split)

lemma step_checked:
  "step e x y \<Longrightarrow> set (checkmtpoint (fst x)) \<subseteq> set (checkmtpoint (fst y))"
proof (induction rule: step.induct)
  case (step_run_cmd s cmd use_sudo dlevel msg wait t r s' t')
  from arg_cong [OF this, of "\<lambda>x. fst (snd x)"] show ?case
    by (auto simp: run_cmd_frame)
next
  case (step_wait_cmd s proc terminate dlevel msg t r s' t')
  from arg_cong [OF this, of "\<lambda>x. fst (snd x)"] show ?case
    by (auto simp: wait_cmd_def wait_loop_checked)
next
  case (step_stop_cmd s proc dlevel msg t r s' t')
  from arg_cong [OF this, of "\<lambda>x. fst (snd x)"] show ?case
    by (auto simp: stop_cmd_def wait_cmd_def wait_loop_checked)
next
  case (step_check_mtpoint s mp t r s' t')
  from arg_cong [OF this, of "\<lambda>x. fst (snd x)"] check_mtpoint_checked [of e s mp t]
  show ?case by auto
next
  case (step_mount s kw t r s' t')
  from arg_cong [OF this, of "\<lambda>x. fst (snd x)"] mount_checked [of s e kw t]
  show ?case by auto
next
  case (step_umount s t r s' t')
  from arg_cong [OF this, of "\<lambda>x. fst (snd x)"] umount_checked [of s e t]
  show ?case by auto
next
  case (step_network_drop s ipaddr port1 t r s' t')
  from arg_cong [OF this, of "\<lambda>x. fst (snd x)"] show ?case
    by (auto simp: network_checked)
next
  case (step_network_reset s t s' t')
  from arg_cong [OF this, of fst] show ?case
    by (auto simp: network_checked)
next
  case (step_get_route s ipaddr t r3 s' t')
  from arg_cong [OF this, of "\<lambda>x. fst (snd x)"] show ?case
    by (auto simp: network_checked)
qed

lemma steps_checked:
  "(step e)\<^sup>*\<^sup>* x y \<Longrightarrow> set (checkmtpoint (fst x)) \<subseteq> set (checkmtpoint (fst y))"
  by (induction rule: rtranclp_induct) (auto dest: step_checked)

text \<open>The validator asks at most once whether the path exists.\<close>

lemma run_cmd_wait_events:
  "\<exists>p out err rc. snd (snd (run_cmd e s cmd sd dl msg True t))
      = t @ [Spawn cmd sd (shell_cmd e s cmd sd) p, Communicate p out err rc]"
proof -
  let ?c = "shell_cmd e s cmd sd"
  let ?p = "Popen_obj (length t) (new_pid e t ?c)"
  obtain out err rc where res: "cmd_result e (t @ [Spawn cmd sd ?c ?p]) ?c = (out, err, rc)"
    by (cases "cmd_result e (t @ [Spawn cmd sd ?c ?p]) ?c") auto
  show ?thesis
    unfolding run_cmd_wait [OF res] Let_def by simp
qed

lemma probe_mtpoint_once:
  "\<exists>ev. snd (snd (snd (probe_mtpoint e s mp t))) = t @ ev
     \<and> length (filter (exists_probe mp) ev) \<le> 1"
proof (cases "localhost s")
  case True
  then show ?thesis
    by (simp add: probe_mtpoint_def Let_def)
next
  case False
  let ?r1 = "run_cmd e s (''test -e '' @ [CHR 0x27] @ mp @ [CHR 0x27]) False
                (Some ''DBG4'') ''Check if mount point directory exists: '' True t"
  let ?r2 = "run_cmd e (fst (snd ?r1)) (''test -d '' @ [CHR 0x27] @ mp @ [CHR 0x27]) False
                (Some ''DBG4'') ''Check if mount point is a directory: '' True (snd (snd ?r1))"
  obtain p1 sh1 out1 err1 rc1 where ev1: "snd (snd ?r1)
      = t @ [Spawn (''test -e '' @ [CHR 0x27] @ mp @ [CHR 0x27]) False sh1 p1,
             Communicate p1 out1 err1 rc1]"
    using run_cmd_wait_events by blast
  obtain p2 sh2 out2 err2 rc2 where ev2: "snd (snd ?r2)
      = snd (snd ?r1) @ [Spawn (''test -d '' @ [CHR 0x27] @ mp @ [CHR 0x27]) False sh2 p2,
             Communicate p2 out2 err2 rc2]"
    using run_cmd_wait_events by blast
  have "snd (snd (snd (probe_mtpoint e s mp t))) = snd (snd ?r1)
      \<or> snd (snd (snd (probe_mtpoint e s mp t))) = snd (snd ?r2)"
    using False by (simp add: probe_mtpoint_def Let_def split_beta)
  then show ?thesis
    unfolding ev2 unfolding ev1 by auto
qed

lemma check_mtpoint_probes_once:
  "\<exists>ev. snd (snd (check_mtpoint e s mp t)) = t @ ev
     \<and> length (filter (exists_probe mp) ev) \<le> 1"
proof (cases "mp \<in> set (checkmtpoint s)")
  case True
  then show ?thesis
    by (simp add: check_mtpoint_def)
next
  case False
  let ?pr = "probe_mtpoint e (s\<lparr>checkmtpoint := checkmtpoint s @ [mp]\<rparr>) mp t"
  let ?mk = "run_cmd e (fst (snd (snd ?pr))) (''mkdir -p '' @ mp) True (Some ''DBG3'')
                ''Creating mount point directory: '' True (snd (snd (snd ?pr)))"
  obtain ev1 where ev1: "snd (snd (snd ?pr)) = t @ ev1" "length (filter (exists_probe mp) ev1) \<le> 1"
    using probe_mtpoint_once by blast
  obtain p sh out err rc where ev2: "snd (snd ?mk)
      = snd (snd (snd ?pr)) @ [Spawn (''mkdir -p '' @ mp) True sh p, Communicate p out err rc]"
    using run_cmd_wait_events by blast
  have "snd (snd (check_mtpoint e s mp t)) = snd (snd (snd ?pr))
      \<or> snd (snd (check_mtpoint e s mp t)) = snd (snd ?mk)"
    using False by (simp add: check_mtpoint_def split_beta split: sum.split)
  then show ?thesis
    unfolding ev2 unfolding ev1(1) using ev1(2) by auto
qed

text \<open>
  C5: once \<open>_check_mtpoint\<close> has been called for a path \<open>p\<close>, whether it returned or
  raised, every later call for \<open>p\<close> in the session returns at once: the object and the
  event log are as they were, so nothing was looked at, created or changed.  Any number of
  calls of the methods may lie between the two, and the environments of the three phases
  may differ in every respect.  The first call itself asks at most once whether \<open>p\<close>
  exists, so the validator makes this check at most once in a session.
\<close>

theorem check_mtpoint_once:
  assumes first: "check_mtpoint e s p t = (r, s1, t1)"
    and later: "(step e')\<^sup>*\<^sup>* (s1, t1) (s2, t2)"
  shows "check_mtpoint e'' s2 p t2 = (Inr (), s2, t2)
       \<and> (\<exists>ev. t1 = t @ ev \<and> length (filter (exists_probe p) ev) \<le> 1)"
proof -
  have "p \<in> set (checkmtpoint s1)"
    using check_mtpoint_checked [of e s p t] first by simp
  then have "p \<in> set (checkmtpoint s2)"
    using steps_checked [OF later] by auto
  then have "check_mtpoint e'' s2 p t2 = (Inr (), s2, t2)"
    by (rule check_mtpoint_known)
  moreover have "\<exists>ev. t1 = t @ ev \<and> length (filter (exists_probe p) ev) \<le> 1"
    using check_mtpoint_probes_once [of e s p t] first by simp
  ultimately show ?thesis
    by blast
qed

theorem check_mtpoint_once_witness:
  "check_mtpoint (env_const 0 ([], [], 0) False)
     (fst (snd (mount (env_const 0 ([], [], 1) True)
        (fst (snd (check_mtpoint (env_const 0 ([], [], 0) True) (new_host []) ''/mnt/t'' [])))
        no_kwargs
        (snd (snd (check_mtpoint (env_const 0 ([], [], 0) True) (new_host []) ''/mnt/t'' []))))))
     ''/mnt/t''
     (snd (snd (mount (env_const 0 ([], [], 1) True)
        (fst (snd (check_mtpoint (env_const 0 ([], [], 0) True) (new_host []) ''/mnt/t'' [])))
        no_kwargs
        (snd (snd (check_mtpoint (env_const 0 ([], [], 0) True) (new_host []) ''/mnt/t'' []))))))
   = (Inr (),
      fst (snd (mount (env_const 0 ([], [], 1) True)
        (fst (snd (check_mtpoint (env_const 0 ([], [], 0) True) (new_host []) ''/mnt/t'' [])))
        no_kwargs
        (snd (snd (check_mtpoint (env_const 0 ([], [], 0) True) (new_host []) ''/mnt/t'' []))))),
      snd (snd (mount (env_const 0 ([], [], 1) True)
        (fst (snd (check_mtpoint (env_const 0 ([], [], 0) True) (new_host []) ''/mnt/t'' [])))
        no_kwargs
        (snd (snd (check_mtpoint (env_const 0 ([], [], 0) True) (new_host []) ''/mnt/t'' []))))))"
proof -
  let ?c = "check_mtpoint (env_const 0 ([], [], 0) True) (new_host []) ''/mnt/t'' []"
  let ?m = "mount (env_const 0 ([], [], 1) True) (fst (snd ?c)) no_kwargs (snd (snd ?c))"
  have first: "?c = (fst ?c, fst (snd ?c), snd (snd ?c))"
    by simp
  have "?m = (fst ?m, fst (snd ?m), snd (snd ?m))"
    by simp
  then have "step (env_const 0 ([], [], 1) True) (fst (snd ?c), snd (snd ?c)) (fst (snd ?m), snd (snd ?m))"
    by (rule step_mount)
  then have later: "(step (env_const 0 ([], [], 1) True))\<^sup>*\<^sup>* (fst (snd ?c), snd (snd ?c))
      (fst (snd ?m), snd (snd ?m))"
    by (rule r_into_rtranclp)
  from check_mtpoint_once [OF first later] show ?thesis
    by (rule conjunct1)
qed

subsection \<open>\<open>mount\<close>\<close>

lemma check_mtpoint_frame:
  "host (fst (snd (check_mtpoint e s mp t))) = host s"
  "user (fst (snd (check_mtpoint e s mp t))) = user s"
  "sudo (fst (snd (check_mtpoint e s mp t))) = sudo s"
  "localhost (fst (snd (check_mtpoint e s mp t))) = localhost s"
  "nomount (fst (snd (check_mtpoint e s mp t))) = nomount s"
  "iptables (fst (snd (check_mtpoint e s mp t))) = iptables s"
  "mtpoint (fst (snd (check_mtpoint e s mp t))) = mtpoint s"
  "mtdir (fst (snd (check_mtpoint e s mp t))) = mtdir s"
  "mounted (fst (snd (check_mtpoint e s mp t))) = mounted s"
  "need_network_reset (fst (snd (check_mtpoint e s mp t))) = need_network_reset s"
  unfolding check_mtpoint_def
  by (simp_all add: split_beta run_cmd_frame probe_mtpoint_frame split: sum.split)

text \<open>A validator that returns leaves the list of invalid mount points as it was.\<close>

lemma check_mtpoint_invalid:
  "fst (check_mtpoint e s mp t) = Inr u \<Longrightarrow>
     invalidmtpoint (fst (snd (check_mtpoint e s mp t))) = invalidmtpoint s"
  unfolding check_mtpoint_def
  by (simp add: split_beta run_cmd_frame probe_mtpoint_frame split: sum.splits if_splits)

lemma create_datadir_mtdir:
  "mtdir (fst (snd (create_datadir e s t))) = mtdir s"
  unfolding create_datadir_def Let_def
  by (simp add: split_beta run_cmd_frame split: sum.split)

lemma mount_mtdir_set:
  "mtdir (fst (snd (mount e s kw t))) =
     mount_mtdir (rstrip_slash (kw_pop (kw_mtpoint kw) (mtpoint s)))
       (kw_pop (kw_datadir kw) (datadir s))"
  unfolding mount_def Let_def
  by (simp add: split_beta run_cmd_frame check_mtpoint_frame create_datadir_mtdir
       split: sum.split)

lemma mount_short:
  assumes "nomount s \<or> mp \<in> set (invalidmtpoint s)"
    and "mp = rstrip_slash (kw_pop (kw_mtpoint kw) (mtpoint s))"
    and "md = mount_mtdir mp (kw_pop (kw_datadir kw) (datadir s))"
  shows "mount e s kw t =
     (case check_mtpoint e (s\<lparr>mtdir := md\<rparr>) mp t of
        (Inl x, s2, t2) \<Rightarrow> (Inl x, s2, t2)
      | (Inr u, s2, t2) \<Rightarrow> (Inr None, s2, t2))"
proof -
  let ?c = "check_mtpoint e (s\<lparr>mtdir := md\<rparr>) mp t"
  have nm: "nomount (fst (snd ?c)) = nomount s"
    by (simp add: check_mtpoint_frame)
  have inv: "fst ?c = Inr () \<Longrightarrow> invalidmtpoint (fst (snd ?c)) = invalidmtpoint s"
    using check_mtpoint_invalid [of e "s\<lparr>mtdir := md\<rparr>" mp t] by simp
  show ?thesis
    unfolding mount_def Let_def assms(2) [symmetric] assms(3) [symmetric]
    using assms(1) nm inv
    by (cases ?c; cases "fst ?c") auto
qed

text \<open>A path that \<open>rstrip("/")\<close> has left does not end in a slash.\<close>

lemma rstrip_slash_last:
  "rstrip_slash x \<noteq> [] \<Longrightarrow> last (rstrip_slash x) \<noteq> CHR ''/''"
  unfolding rstrip_slash_def
  using hd_dropWhile [of "\<lambda>c. c = CHR ''/''" "rev x"] by (simp add: last_rev)

text \<open>
  C9, as the code has it.  \<open>mp\<close> is the mount point without its trailing slashes and \<open>dd\<close>
  the data directory of the call.  Every call of \<open>mount\<close>, whether it returns or raises,
  leaves \<open>mtdir\<close> at \<open>os.path.join(mp, dd)\<close>, or at \<open>mp\<close> when \<open>dd\<close> is empty; for a
  relative \<open>dd\<close> under a mount point that is not empty this is \<open>mp/dd\<close>.  When \<open>nomount\<close>
  is set or \<open>mp\<close> is on the list of invalid mount points, the call never returns the
  mount point: it returns \<open>None\<close> when the validator returns, and raises the exception of
  the validator when that raises; nothing but the validator touches the object and the
  event log after \<open>mtdir\<close> was set.  When \<open>mp\<close> has been validated before, the call
  returns \<open>None\<close> and changes nothing but \<open>mtdir\<close>.
\<close>

theorem mount_short_circuit:
  fixes e s kw t
  defines "mp \<equiv> rstrip_slash (kw_pop (kw_mtpoint kw) (mtpoint s))"
  defines "dd \<equiv> kw_pop (kw_datadir kw) (datadir s)"
  assumes run: "mount e s kw t = (r, s', t')"
  shows "mtdir s' = mount_mtdir mp dd
       \<and> (dd = [] \<longrightarrow> mount_mtdir mp dd = mp)
       \<and> (dd \<noteq> [] \<and> hd dd \<noteq> CHR ''/'' \<and> mp \<noteq> [] \<longrightarrow> mount_mtdir mp dd = mp @ ''/'' @ dd)
       \<and> (nomount s \<or> mp \<in> set (invalidmtpoint s) \<longrightarrow>
            (r, s', t') =
              (case check_mtpoint e (s\<lparr>mtdir := mount_mtdir mp dd\<rparr>) mp t of
                 (Inl x, s2, t2) \<Rightarrow> (Inl x, s2, t2)
               | (Inr u, s2, t2) \<Rightarrow> (Inr None, s2, t2)))
       \<and> ((nomount s \<or> mp \<in> set (invalidmtpoint s)) \<and> mp \<in> set (checkmtpoint s) \<longrightarrow>
            r = Inr None \<and> s' = s\<lparr>mtdir := mount_mtdir mp dd\<rparr> \<and> t' = t)"
proof -
  have a: "mtdir s' = mount_mtdir mp dd"
    using mount_mtdir_set [of e s kw t] run by (simp add: mp_def dd_def)
  have b: "dd = [] \<longrightarrow> mount_mtdir mp dd = mp"
    by (simp add: mount_mtdir_def)
  have c: "dd \<noteq> [] \<and> hd dd \<noteq> CHR ''/'' \<and> mp \<noteq> [] \<longrightarrow> mount_mtdir mp dd = mp @ ''/'' @ dd"
    using rstrip_slash_last [of "kw_pop (kw_mtpoint kw) (mtpoint s)"]
    by (simp add: mount_mtdir_def path_join_def mp_def)
  have d: "(r, s', t') =
              (case check_mtpoint e (s\<lparr>mtdir := mount_mtdir mp dd\<rparr>) mp t of
                 (Inl x, s2, t2) \<Rightarrow> (Inl x, s2, t2)
               | (Inr u, s2, t2) \<Rightarrow> (Inr None, s2, t2))"
    if "nomount s \<or> mp \<in> set (invalidmtpoint s)"
    using mount_short [OF that, of kw "mount_mtdir mp dd" e t] run
    by (simp add: mp_def dd_def)
  have e: "r = Inr None \<and> s' = s\<lparr>mtdir := mount_mtdir mp dd\<rparr> \<and> t' = t"
    if "nomount s \<or> mp \<in> set (invalidmtpoint s)" and "mp \<in> set (checkmtpoint s)"
    using d [OF that(1)] that(2) by (simp add: check_mtpoint_known)
  from a b c d e show ?thesis
    by blast
qed

theorem mount_short_circuit_witness:
  "nomount ((new_host [])\<lparr>nomount := True\<rparr>)
   \<and> fst (mount (env_const 0 ([], [], 0) True) ((new_host [])\<lparr>nomount := True\<rparr>)
            (no_kwargs\<lparr>kw_mtpoint := Some ''/mnt/t/'', kw_datadir := Some ''data''\<rparr>) []) = Inr None
   \<and> mtdir (fst (snd (mount (env_const 0 ([], [], 0) True) ((new_host [])\<lparr>nomount := True\<rparr>)
            (no_kwargs\<lparr>kw_mtpoint := Some ''/mnt/t/'', kw_datadir := Some ''data''\<rparr>) [])))
       = ''/mnt/t/data''"
proof -
  let ?e = "env_const 0 ([], [], 0) True"
  let ?s = "(new_host [])\<lparr>nomount := True\<rparr>"
  let ?kw = "no_kwargs\<lparr>kw_mtpoint := Some ''/mnt/t/'', kw_datadir := Some ''data''\<rparr>"
  let ?m = "mount ?e ?s ?kw []"
  have run: "?m = (fst ?m, fst (snd ?m), snd (snd ?m))"
    by simp
  have mp: "rstrip_slash (kw_pop (kw_mtpoint ?kw) (mtpoint ?s)) = ''/mnt/t''"
    by (simp add: rstrip_slash_def kw_pop_def)
  have dd: "kw_pop (kw_datadir ?kw) (datadir ?s) = ''data''"
    by (simp add: kw_pop_def)
  have nm: "nomount ?s"
    by simp
  have chk: "fst (check_mtpoint ?e (?s\<lparr>mtdir := ''/mnt/t/data''\<rparr>) ''/mnt/t'' []) = Inr ()"
    by (simp add: check_mtpoint_def probe_mtpoint_def new_host_def env_const_def Let_def)
  have md: "mount_mtdir ''/mnt/t'' ''data'' = ''/mnt/t/data''"
    by (simp add: mount_mtdir_def path_join_def)
  from mount_short_circuit [OF run] nm chk show ?thesis
    unfolding mp dd md by (simp add: split_beta check_mtpoint_frame)
qed

text \<open>
  The claim C9 as it is written fails: with \<open>nomount\<close> set, a mount point that exists and
  is not a directory makes \<open>mount\<close> raise the exception of the validator, not return
  \<open>None\<close>.
\<close>

theorem mount_nomount_raises:
  "nomount ((new_host [])\<lparr>nomount := True\<rparr>)
   \<and> fst (mount (env_const 0 ([], [], 0) False) ((new_host [])\<lparr>nomount := True\<rparr>) no_kwargs [])
       = Inl (Exception ''Mount point /mnt/t is not a directory'')"
  by (simp add: mount_def check_mtpoint_def probe_mtpoint_def new_host_def env_const_def
       no_kwargs_def kw_pop_def rstrip_slash_def mount_mtdir_def Let_def)

subsection \<open>The command of \<open>mount\<close>\<close>











subsection \<open>\<open>umount\<close>\<close>

text \<open>What a blocking \<open>run_cmd\<close> adds to the event log and records in the object.\<close>

lemma run_cmd_wait_record:
  "\<exists>p out err rc.
     snd (snd (run_cmd e s cmd sd dl msg True t))
       = t @ [Spawn cmd sd (shell_cmd e s cmd sd) p, Communicate p out err rc]
     \<and> returncode (fst (snd (run_cmd e s cmd sd dl msg True t))) = rc
     \<and> perror (fst (snd (run_cmd e s cmd sd dl msg True t))) = recorded_error (localhost s) (out, err, rc)"
proof -
  let ?c = "shell_cmd e s cmd sd"
  let ?p = "Popen_obj (length t) (new_pid e t ?c)"
  obtain out err rc where res: "cmd_result e (t @ [Spawn cmd sd ?c ?p]) ?c = (out, err, rc)"
    by (cases "cmd_result e (t @ [Spawn cmd sd ?c ?p]) ?c") auto
  show ?thesis
    unfolding run_cmd_wait [OF res] Let_def
    by (rule exI [of _ ?p], rule exI [of _ out], rule exI [of _ err], rule exI [of _ rc])
       (simp add: recorded_error_def)
qed

lemma parse_attempts_block:
  "parse_attempts cmd ([Sleep 1, Spawn cmd True sh p, Communicate p out err rc] @ ev)
     = map_option ((#) (out, err, rc)) (parse_attempts cmd ev)"
  by simp

text \<open>
  The loop with \<open>n\<close> rounds left: it makes at most \<open>n\<close> attempts, every attempt but the
  last one failed, and either the last one succeeded and \<open>mounted\<close> is false, or all \<open>n\<close>
  attempts failed and \<open>mounted\<close> is as it was.
\<close>

lemma umount_loop_attempts:
  "\<exists>ev as. snd (umount_loop e cmd n s t) = t @ ev
     \<and> parse_attempts cmd ev = Some as \<and> length as \<le> n
     \<and> (\<forall>a\<in>set (butlast as). \<not> attempt_ok (localhost s) a)
     \<and> (if as \<noteq> [] \<and> attempt_ok (localhost s) (last as)
         then \<not> mounted (fst (umount_loop e cmd n s t))
         else length as = n \<and> mounted (fst (umount_loop e cmd n s t)) = mounted s)"
proof (induction n arbitrary: s t)
  case 0
  show ?case by simp
next
  case (Suc n)
  let ?r = "run_cmd e s cmd True (Some ''DBG2'') ''Unmount volume: '' True (t @ [Sleep 1])"
  let ?s1 = "fst (snd ?r)"
  let ?t1 = "snd (snd ?r)"
  obtain p out err rc where
    t1: "?t1 = (t @ [Sleep 1]) @ [Spawn cmd True (shell_cmd e s cmd True) p, Communicate p out err rc]"
    and rc: "returncode ?s1 = rc"
    and pe: "perror ?s1 = recorded_error (localhost s) (out, err, rc)"
    using run_cmd_wait_record [of e s cmd True "Some ''DBG2''" "''Unmount volume: ''" "t @ [Sleep 1]"]
    by blast
  let ?a = "(out, err, rc)"
  let ?block = "[Sleep 1, Spawn cmd True (shell_cmd e s cmd True) p, Communicate p out err rc]"
  have ok: "(returncode ?s1 = 0 \<or> re_search not_mounted_re (perror ?s1) \<noteq> None)
      = attempt_ok (localhost s) ?a"
    by (simp only: rc pe attempt_ok_def snd_conv)
  have t1': "?t1 = t @ ?block"
    using t1 by simp
  show ?case
  proof (cases "attempt_ok (localhost s) ?a")
    case True
    then have res: "umount_loop e cmd (Suc n) s t = (?s1\<lparr>mounted := False\<rparr>, ?t1)"
      using ok by (simp add: split_beta)
    have "parse_attempts cmd ?block = Some [?a]"
      using parse_attempts_block [of cmd _ p out err rc "[]"] by simp
    with True show ?thesis
      unfolding res t1'
      by (intro exI [of _ ?block] exI [of _ "[?a]"]) simp
  next
    case False
    then have res: "umount_loop e cmd (Suc n) s t = umount_loop e cmd n ?s1 ?t1"
      using ok by (simp add: split_beta)
    have frame: "localhost ?s1 = localhost s" "mounted ?s1 = mounted s"
      by (simp_all add: run_cmd_frame)
    from Suc.IH [of ?s1 ?t1] obtain ev as where
      ev: "snd (umount_loop e cmd n ?s1 ?t1) = ?t1 @ ev"
      and as: "parse_attempts cmd ev = Some as" "length as \<le> n"
      and failed: "\<forall>a\<in>set (butlast as). \<not> attempt_ok (localhost s) a"
      and final: "if as \<noteq> [] \<and> attempt_ok (localhost s) (last as)
         then \<not> mounted (fst (umount_loop e cmd n ?s1 ?t1))
         else length as = n \<and> mounted (fst (umount_loop e cmd n ?s1 ?t1)) = mounted s"
      unfolding frame by blast
    have 1: "snd (umount_loop e cmd (Suc n) s t) = t @ (?block @ ev)"
      using ev unfolding res t1' by simp
    have 2: "parse_attempts cmd (?block @ ev) = Some (?a # as)"
      unfolding parse_attempts_block as by simp
    have 3: "length (?a # as) \<le> Suc n"
      using as by simp
    have 4: "\<forall>a\<in>set (butlast (?a # as)). \<not> attempt_ok (localhost s) a"
      using failed False by (cases as) auto
    have 5: "if ?a # as \<noteq> [] \<and> attempt_ok (localhost s) (last (?a # as))
         then \<not> mounted (fst (umount_loop e cmd (Suc n) s t))
         else length (?a # as) = Suc n
           \<and> mounted (fst (umount_loop e cmd (Suc n) s t)) = mounted s"
      using final False unfolding res by (cases as) (auto split: if_splits)
    from 1 2 3 4 5 show ?thesis
      by blast
  qed
qed

text \<open>
  C2: a call of \<open>umount\<close> with \<open>nomount\<close> unset and a mount point that is not invalid.  If
  the validator raises, so does \<open>umount\<close>, before any attempt.  Otherwise \<open>umount\<close>
  returns without an exception; after the \<open>sync\<close> the event log consists of at least one
  and at most five attempts, each of them a sleep of one second followed by the forced
  unmount command run with sudo; every attempt but the last one failed; and either the
  last attempt succeeded and \<open>mounted\<close> is false, or all five attempts failed and
  \<open>mounted\<close> is as it was.
\<close>

theorem umount_retries:
  fixes e s t
  defines "cmd \<equiv> ''umount -f '' @ mtpoint s"
  assumes nm: "\<not> nomount s"
    and chk: "check_mtpoint e s (mtpoint s) t = (r1, s1, t1)"
    and valid: "mtpoint s \<notin> set (invalidmtpoint s1)"
    and run: "umount e s t = (r, s', t')"
  shows "(\<forall>x. r1 = Inl x \<longrightarrow> r = Inl x \<and> s' = s1 \<and> t' = t1)
       \<and> (r1 = Inr () \<longrightarrow>
            r = Inr ()
            \<and> (\<exists>ev as. t' = t1 @ [Sync] @ ev \<and> parse_attempts cmd ev = Some as
                 \<and> 1 \<le> length as \<and> length as \<le> 5
                 \<and> (\<forall>a\<in>set (butlast as). \<not> attempt_ok (localhost s) a)
                 \<and> (if attempt_ok (localhost s) (last as) then \<not> mounted s'
                     else length as = 5 \<and> mounted s' = mounted s)))"
proof -
  have s1: "s1 = fst (snd (check_mtpoint e s (mtpoint s) t))"
    using chk by simp
  have frame: "mtpoint s1 = mtpoint s" "localhost s1 = localhost s" "mounted s1 = mounted s"
    by (simp_all add: s1 check_mtpoint_frame)
  have raised: "r = Inl x \<and> s' = s1 \<and> t' = t1" if "r1 = Inl x" for x
    using run nm chk that by (simp add: umount_def)
  have returned: "r = Inr ()
            \<and> (\<exists>ev as. t' = t1 @ [Sync] @ ev \<and> parse_attempts cmd ev = Some as
                 \<and> 1 \<le> length as \<and> length as \<le> 5
                 \<and> (\<forall>a\<in>set (butlast as). \<not> attempt_ok (localhost s) a)
                 \<and> (if attempt_ok (localhost s) (last as) then \<not> mounted s'
                     else length as = 5 \<and> mounted s' = mounted s))"
    if "r1 = Inr ()"
  proof -
    let ?l = "umount_loop e cmd 5 s1 (t1 @ [Sync])"
    have res: "r = Inr ()" "s' = fst ?l" "t' = snd ?l"
      using run nm chk that valid by (simp_all add: umount_def frame cmd_def split_beta)
    from umount_loop_attempts [of e cmd 5 s1 "t1 @ [Sync]"] obtain ev as where
      ev: "snd ?l = (t1 @ [Sync]) @ ev"
      and as: "parse_attempts cmd ev = Some as" "length as \<le> 5"
      and failed: "\<forall>a\<in>set (butlast as). \<not> attempt_ok (localhost s) a"
      and final: "if as \<noteq> [] \<and> attempt_ok (localhost s) (last as)
         then \<not> mounted (fst ?l) else length as = 5 \<and> mounted (fst ?l) = mounted s"
      unfolding frame by blast
    have some: "1 \<le> length as"
      using final by (cases as) (auto split: if_splits)
    then have "as \<noteq> []"
      by auto
    with final have final': "if attempt_ok (localhost s) (last as)
         then \<not> mounted s' else length as = 5 \<and> mounted s' = mounted s"
      unfolding res by simp
    from ev as failed some final' show ?thesis
      unfolding res by auto
  qed
  from raised returned show ?thesis
    by blast
qed

theorem umount_retries_witness:
  "\<not> nomount ((new_host [])\<lparr>checkmtpoint := [''/mnt/t''], mounted := True\<rparr>)
   \<and> fst (umount (env_busy 5) ((new_host [])\<lparr>checkmtpoint := [''/mnt/t''], mounted := True\<rparr>) [])
       = Inr ()
   \<and> (\<exists>ev as.
         snd (snd (umount (env_busy 5)
           ((new_host [])\<lparr>checkmtpoint := [''/mnt/t''], mounted := True\<rparr>) [])) = Sync # ev
         \<and> parse_attempts ''umount -f /mnt/t'' ev = Some as
         \<and> 1 \<le> length as \<and> length as \<le> 5)"
proof -
  let ?s = "(new_host [])\<lparr>checkmtpoint := [''/mnt/t''], mounted := True\<rparr>"
  let ?u = "umount (env_busy 5) ?s []"
  have nm: "\<not> nomount ?s"
    by (simp add: new_host_def)
  have mp: "mtpoint ?s = ''/mnt/t''"
    by (simp add: new_host_def)
  have chk: "check_mtpoint (env_busy 5) ?s (mtpoint ?s) [] = (Inr (), ?s, [])"
    by (rule check_mtpoint_known) (simp add: new_host_def)
  have valid: "mtpoint ?s \<notin> set (invalidmtpoint ?s)"
    by (simp add: new_host_def)
  have run: "?u = (fst ?u, fst (snd ?u), snd (snd ?u))"
    by simp
  from umount_retries [OF nm chk valid run] nm show ?thesis
    unfolding mp by auto
qed

text \<open>
  The example of the specification: the command fails on the attempts 1 to 4 and
  succeeds on the fifth one.  The session ends unmounted after exactly five attempts.
\<close>

lemma busy_no_match:
  "re_search not_mounted_re ''umount: /mnt/t: device is busy'' = None"
  by code_simp

lemma umount_loop_unroll:
  "umount_loop e cmd 5 s t = umount_loop e cmd (Suc (Suc (Suc (Suc (Suc 0))))) s t"
  by (simp add: eval_nat_numeral)

lemma umount_fifth_attempt:
  "mounted (fst (snd (umount (env_busy 5)
      ((new_host [])\<lparr>checkmtpoint := [''/mnt/t''], mounted := True\<rparr>) []))) = False
   \<and> parse_attempts ''umount -f /mnt/t''
        (tl (snd (snd (umount (env_busy 5)
           ((new_host [])\<lparr>checkmtpoint := [''/mnt/t''], mounted := True\<rparr>) []))))
       = Some [([], ''umount: /mnt/t: device is busy'', 1),
               ([], ''umount: /mnt/t: device is busy'', 1),
               ([], ''umount: /mnt/t: device is busy'', 1),
               ([], ''umount: /mnt/t: device is busy'', 1),
               ([], [], 0)]"
  by (simp add: umount_def check_mtpoint_def umount_loop_unroll run_cmd_def Let_def
       shell_cmd_def sudo_cmd_def env_busy_def new_host_def busy_no_match)

subsection \<open>\<open>get_route\<close>\<close>

lemma rmatch_keeps:
  "(s', g') \<in> set (rmatch r (s, g)) \<Longrightarrow> g n \<noteq> None \<Longrightarrow> g' n \<noteq> None"
proof (induction r arbitrary: s g s' g')
  case (Atom c)
  then show ?case by (auto split: list.splits if_splits)
next
  case (Seq a b)
  from Seq.prems(1) obtain s1 g1 where
    a: "(s1, g1) \<in> set (rmatch a (s, g))" and b: "(s', g') \<in> set (rmatch b (s1, g1))"
    by auto
  from Seq.IH(1) [OF a Seq.prems(2)] Seq.IH(2) [OF b] show ?case by blast
next
  case (Alt a b)
  then show ?case by auto
next
  case (Opt a)
  then show ?case by auto
next
  case (Group m a)
  from Group.prems(1) obtain g1 where
    a: "(s', g1) \<in> set (rmatch a (s, g))" and g': "g' = g1(m \<mapsto> take (length s - length s') s)"
    by auto
  from Group.IH [OF a Group.prems(2)] show ?case
    by (simp add: g')
qed auto

lemma rmatch_sets:
  "sets_group n r \<Longrightarrow> (s', g') \<in> set (rmatch r (s, g)) \<Longrightarrow> g' n \<noteq> None"
proof (induction r arbitrary: s g s' g')
  case (Seq a b)
  from Seq.prems(2) obtain s1 g1 where
    a: "(s1, g1) \<in> set (rmatch a (s, g))" and b: "(s', g') \<in> set (rmatch b (s1, g1))"
    by auto
  show ?case
  proof (cases "sets_group n a")
    case True
    then have "g1 n \<noteq> None"
      using Seq.IH(1) a by blast
    then show ?thesis
      using rmatch_keeps b by blast
  next
    case False
    then have "sets_group n b"
      using Seq.prems(1) by simp
    then show ?thesis
      using Seq.IH(2) b by blast
  qed
next
  case (Alt a b)
  then show ?case by auto
next
  case (Group m a)
  then show ?case by (cases "m = n") auto
qed simp_all

lemma rmatch_untouched:
  "\<not> has_group n r \<Longrightarrow> (s', g') \<in> set (rmatch r (s, g)) \<Longrightarrow> g' n = g n"
proof (induction r arbitrary: s g s' g')
  case (Atom c)
  then show ?case by (auto split: list.splits if_splits)
next
  case (Seq a b)
  from Seq.prems(2) obtain s1 g1 where
    a: "(s1, g1) \<in> set (rmatch a (s, g))" and b: "(s', g') \<in> set (rmatch b (s1, g1))"
    by auto
  have "g1 n = g n"
    using Seq.IH(1) a Seq.prems(1) by simp
  moreover have "g' n = g1 n"
    using Seq.IH(2) b Seq.prems(1) by simp
  ultimately show ?case by simp
next
  case (Alt a b)
  then show ?case by auto
next
  case (Opt a)
  then show ?case by auto
next
  case (Group m a)
  from Group.prems(2) obtain g1 where
    a: "(s', g1) \<in> set (rmatch a (s, g))" and g': "g' = g1(m \<mapsto> take (length s - length s') s)"
    by auto
  have "g1 n = g n"
    using Group.IH a Group.prems(1) by simp
  then show ?case
    using Group.prems(1) by (simp add: g')
qed auto

text \<open>A successful search comes from a match at some position of the text.\<close>

lemma re_search_at:
  "re_search r s = Some g \<Longrightarrow> \<exists>a b s'. s = a @ b \<and> (s', g) \<in> set (rmatch r (b, Map.empty))"
proof (induction s)
  case Nil
  then show ?case
    by (subst (asm) re_search.simps) (auto split: list.splits)
next
  case (Cons x xs)
  show ?case
  proof (cases "rmatch r (x # xs, Map.empty)")
    case Nil
    then have "re_search r (x # xs) = re_search r xs"
      by (subst re_search.simps) simp
    with Cons obtain a b s' where "xs = a @ b" "(s', g) \<in> set (rmatch r (b, Map.empty))"
      by auto
    then have "x # xs = (x # a) @ b \<and> (s', g) \<in> set (rmatch r (b, Map.empty))"
      by simp
    then show ?thesis
      by blast
  next
    case (Cons m ms)
    then have "(fst m, g) \<in> set (rmatch r (x # xs, Map.empty))"
      using Cons.prems by (subst (asm) re_search.simps) (auto split: prod.splits)
    then have "x # xs = [] @ (x # xs) \<and> (fst m, g) \<in> set (rmatch r (x # xs, Map.empty))"
      by simp
    then show ?thesis
      by blast
  qed
qed

lemma re_search_sets:
  "sets_group n r \<Longrightarrow> re_search r s = Some g \<Longrightarrow> g n \<noteq> None"
  using re_search_at rmatch_sets by blast

text \<open>The matches of a sequence, an optional part, a group and a leading character.\<close>

lemma rmatch_SeqD:
  "(s', g') \<in> set (rmatch (Seq a b) st) \<Longrightarrow>
     \<exists>s1 g1. (s1, g1) \<in> set (rmatch a st) \<and> (s', g') \<in> set (rmatch b (s1, g1))"
  by auto

lemma rmatch_OptD:
  "(s', g') \<in> set (rmatch (Opt a) st) \<Longrightarrow> (s', g') \<in> set (rmatch a st) \<or> (s', g') = st"
  by auto

lemma rmatch_GroupD:
  "(s', g') \<in> set (rmatch (Group n a) (s, g)) \<Longrightarrow> \<exists>g0. (s', g0) \<in> set (rmatch a (s, g))"
  by auto

lemma rmatch_AtomD:
  "(s', g') \<in> set (rmatch (Seq (Atom c) r) (s, g)) \<Longrightarrow>
     \<exists>x xs. s = x # xs \<and> (s', g') \<in> set (rmatch r (xs, g))"
  by (cases s) (auto split: if_splits)

text \<open>A match of a pattern that begins with the literal text \<open>w\<close> begins with \<open>w\<close>.\<close>

lemma rmatch_lits:
  "(s', g') \<in> set (rmatch (Seq (lits w) r) (s, g)) \<Longrightarrow>
     \<exists>rest. s = w @ rest \<and> (s', g') \<in> set (rmatch r (rest, g))"
proof (induction w arbitrary: s)
  case Nil
  then show ?case by (simp add: lits_def)
next
  case (Cons c cs)
  from Cons.prems obtain xs where s: "s = c # xs"
    and rest: "(s', g') \<in> set (rmatch (Seq (lits cs) r) (xs, g))"
    by (cases s) (auto simp: lits_def split: if_splits)
  from Cons.IH [OF rest] show ?case
    by (auto simp: s)
qed

text \<open>The gateway group of \<open>route_re\<close> is only filled where the text reads \<open>via\<close>.\<close>

lemma route_re_via:
  assumes m: "(s', g') \<in> set (rmatch route_re (s, Map.empty))" and gw: "g' 2 \<noteq> None"
  shows "\<exists>c rest. s = c # ''via'' @ rest"
proof -
  define z where "z = Seq (Plus Space) (Seq (Group 2 (Plus NonSpace)) Eps)"
  define y where "y = seqs [Atom Space, lits ''dev'', Plus Space, Group 3 (Plus NonSpace), Star Dot,
                  Atom Space, lits ''src'', Plus Space, Group 4 (Plus NonSpace)]"
  define x where "x = Seq (Atom Space) (Seq (lits ''via'') z)"
  have eq: "route_re = Seq (Opt (Group 1 x)) y"
    by (simp add: route_re_def seqs_def x_def y_def z_def)
  have y: "\<not> has_group 2 y"
    by (simp add: y_def seqs_def lits_def)
  from m [unfolded eq, THEN rmatch_SeqD] obtain s1 g1 where
    o: "(s1, g1) \<in> set (rmatch (Opt (Group 1 x)) (s, Map.empty))"
    and r: "(s', g') \<in> set (rmatch y (s1, g1))"
    by blast
  have g1: "g1 2 \<noteq> None"
    using rmatch_untouched [OF y r] gw by simp
  from rmatch_OptD [OF o] g1 have "(s1, g1) \<in> set (rmatch (Group 1 x) (s, Map.empty))"
    by auto
  from rmatch_GroupD [OF this] obtain g0 where "(s1, g0) \<in> set (rmatch x (s, Map.empty))"
    by blast
  from rmatch_AtomD [OF this [unfolded x_def]] obtain c xs where s: "s = c # xs"
    and v: "(s1, g0) \<in> set (rmatch (Seq (lits ''via'') z) (xs, Map.empty))"
    by blast
  from rmatch_lits [OF v] show ?thesis
    by (auto simp: s)
qed

lemma parse_route_via:
  assumes "fst (parse_route out) \<noteq> None"
  shows "\<exists>a b. out = a @ ''via'' @ b"
proof -
  from assms obtain g where g: "re_search route_re out = Some g" and gw: "g 2 \<noteq> None"
    by (auto simp: parse_route_def split: option.splits)
  from re_search_at [OF g] obtain a b s' where
    out: "out = a @ b" and m: "(s', g) \<in> set (rmatch route_re (b, Map.empty))"
    by blast
  from route_re_via [OF m gw] obtain c rest where "b = c # ''via'' @ rest"
    by blast
  then have "out = (a @ [c]) @ ''via'' @ rest"
    using out by simp
  then show ?thesis
    by blast
qed

lemma parse_route_both:
  "(\<exists>gw dev src. parse_route out = (gw, Some dev, Some src)) \<or> parse_route out = (None, None, None)"
proof (cases "re_search route_re out")
  case None
  then show ?thesis by (simp add: parse_route_def)
next
  case (Some g)
  have "sets_group 3 route_re" "sets_group 4 route_re"
    by (simp_all add: route_re_def seqs_def)
  then have "g 3 \<noteq> None" "g 4 \<noteq> None"
    using re_search_sets Some by blast+
  then show ?thesis
    using Some by (auto simp: parse_route_def)
qed

lemma parse_route_examples:
  "parse_route ''10.0.0.1 via 10.0.0.254 dev eth0 src 10.0.0.5''
     = (Some ''10.0.0.254'', Some ''eth0'', Some ''10.0.0.5'')"
  "parse_route ''10.0.0.1 dev eth0 src 10.0.0.5'' = (None, Some ''eth0'', Some ''10.0.0.5'')"
  "parse_route ''10.0.0.1 dev eth0'' = (None, None, None)"
  by code_simp+

lemma get_route_result:
  "fst (get_route e s ip t) =
     (case fst (run_cmd e s (''ip route get '' @ ip) False (Some ''DBG1'') ''Get routing info: ''
                  True t) of
        Inl x \<Rightarrow> (None, None, None)
      | Inr None \<Rightarrow> (None, None, None)
      | Inr (Some out) \<Rightarrow> parse_route out)"
  by (simp add: get_route_def split_beta split: sum.split option.split)

text \<open>
  C7, as the code has it.  \<open>get_route\<close> runs \<open>ip route get\<close> and searches its output for
  \<open>via <gw> dev <dev> ... src <src>\<close>, where only the gateway is optional: the result has
  the device and the source address both present, or all three fields absent.  The gateway
  is absent whenever the output does not contain \<open>via\<close>.  The two outputs of the
  specification parse as it says, and every failure of the query gives three times
  \<open>None\<close>.
\<close>

theorem get_route_parse:
  "parse_route ''10.0.0.1 via 10.0.0.254 dev eth0 src 10.0.0.5''
     = (Some ''10.0.0.254'', Some ''eth0'', Some ''10.0.0.5'')
   \<and> parse_route ''10.0.0.1 dev eth0 src 10.0.0.5'' = (None, Some ''eth0'', Some ''10.0.0.5'')
   \<and> (\<forall>out. (\<exists>gw dev src. parse_route out = (gw, Some dev, Some src))
              \<or> parse_route out = (None, None, None))
   \<and> (\<forall>out. (\<nexists>a b. out = a @ ''via'' @ b) \<longrightarrow> fst (parse_route out) = None)
   \<and> (\<forall>e s ip t out.
         fst (run_cmd e s (''ip route get '' @ ip) False (Some ''DBG1'') ''Get routing info: '' True t)
           = Inr (Some out)
         \<longrightarrow> fst (get_route e s ip t) = parse_route out)
   \<and> (\<forall>e s ip t x.
         fst (run_cmd e s (''ip route get '' @ ip) False (Some ''DBG1'') ''Get routing info: '' True t)
           = Inl x
         \<longrightarrow> fst (get_route e s ip t) = (None, None, None))"
proof (intro conjI allI impI)
  fix out :: string
  assume "\<nexists>a b. out = a @ ''via'' @ b"
  then show "fst (parse_route out) = None"
    using parse_route_via [of out] by blast
next
  fix e s ip t out
  assume "fst (run_cmd e s (''ip route get '' @ ip) False (Some ''DBG1'') ''Get routing info: '' True t)
           = Inr (Some out)"
  then show "fst (get_route e s ip t) = parse_route out"
    by (simp only: get_route_result sum.case option.case)
next
  fix e s ip t x
  assume "fst (run_cmd e s (''ip route get '' @ ip) False (Some ''DBG1'') ''Get routing info: '' True t)
           = Inl x"
  then show "fst (get_route e s ip t) = (None, None, None)"
    by (simp only: get_route_result sum.case)
qed (rule parse_route_examples parse_route_both)+

theorem get_route_parse_witness:
  "fst (get_route (env_const 0 (''10.0.0.1 dev eth0 src 10.0.0.5'', [], 0) True) (new_host [])
          ''10.0.0.1'' []) = (None, Some ''eth0'', Some ''10.0.0.5'')
   \<and> fst (get_route (env_const 0 ([], ''RTNETLINK answers: Network is unreachable'', 2) True)
          (new_host []) ''10.0.0.1'' []) = (None, None, None)"
proof -
  let ?ok = "env_const 0 (''10.0.0.1 dev eth0 src 10.0.0.5'', [], 0) True"
  let ?bad = "env_const 0 ([], ''RTNETLINK answers: Network is unreachable'', 2) True"
  have ok: "fst (run_cmd ?ok (new_host []) (''ip route get '' @ ''10.0.0.1'') False (Some ''DBG1'')
      ''Get routing info: '' True []) = Inr (Some ''10.0.0.1 dev eth0 src 10.0.0.5'')"
    by (simp add: run_cmd_def Let_def env_const_def new_host_def)
  have bad: "fst (run_cmd ?bad (new_host []) (''ip route get '' @ ''10.0.0.1'') False (Some ''DBG1'')
      ''Get routing info: '' True [])
      = Inl (Exception ''RTNETLINK answers: Network is unreachable'')"
    by (simp add: run_cmd_def Let_def env_const_def new_host_def)
  from get_route_parse have
    a: "parse_route ''10.0.0.1 dev eth0 src 10.0.0.5'' = (None, Some ''eth0'', Some ''10.0.0.5'')"
    and b: "\<And>e s ip t out.
         fst (run_cmd e s (''ip route get '' @ ip) False (Some ''DBG1'') ''Get routing info: '' True t)
           = Inr (Some out)
         \<Longrightarrow> fst (get_route e s ip t) = parse_route out"
    and c: "\<And>e s ip t x.
         fst (run_cmd e s (''ip route get '' @ ip) False (Some ''DBG1'') ''Get routing info: '' True t)
           = Inl x
         \<Longrightarrow> fst (get_route e s ip t) = (None, None, None)"
    by blast+
  from b [OF ok] c [OF bad] show ?thesis
    unfolding a by simp
qed

text \<open>
  The claim C7 as it is written fails: the source address is not optional.  An output
  that names the device and no source address is not parsed at all, the device is lost
  with it.
\<close>

theorem get_route_needs_src:
  "parse_route ''10.0.0.1 dev eth0'' = (None, None, None)
   \<and> fst (get_route (env_const 0 (''10.0.0.1 dev eth0'', [], 0) True) (new_host []) ''10.0.0.1'' [])
       = (None, None, None)"
  using parse_route_examples(3)
  by (simp add: get_route_result run_cmd_def Let_def env_const_def new_host_def)

subsection \<open>Starting and stopping a process\<close>

lemma run_cmd_wait_registry:
  "process_list (fst (snd (run_cmd e s cmd sd dl msg True t))) = process_list s"
  "process_smap (fst (snd (run_cmd e s cmd sd dl msg True t))) = process_smap s"
  "process_dmap (fst (snd (run_cmd e s cmd sd dl msg True t))) = process_dmap s"
  unfolding run_cmd_def Let_def shell_cmd_reset
  by (simp_all add: split_beta)

text \<open>A process that is not in \<open>process_list\<close> is passed over.\<close>

lemma wait_loop_unknown:
  "p \<notin> set (process_list s) \<Longrightarrow> wait_loop e tm msg [p] dl out s t = (Inr out, s, t)"
  by simp






text \<open>
  \<open>wait_cmd\<close> without \<open>terminate\<close> leaves the entry of a sudo process in \<open>process_smap\<close>.
  When the operating system gives the process id to a later process that is started
  without sudo, \<open>stop_cmd\<close> kills that one with sudo as well.
\<close>

lemma stop_stale_entry:
  "snd (snd (stop_cmd (env_const 1000 ([], [], 0) True\<lparr>new_pid := \<lambda>t c. 4000\<rparr>)
     ((new_host [])\<lparr>process_smap := [4000 \<mapsto> 1]\<rparr>\<lparr>process_list := [Popen_obj 7 4000]\<rparr>)
     (Some (Popen_obj 7 4000)) None [] []))
   = [Spawn ''kill 4000'' True ''/usr/bin/sudo kill 4000'' (Popen_obj 0 4000),
      Communicate (Popen_obj 0 4000) [] [] 0,
      Reap (Popen_obj 7 4000) 0]"
proof -
  have digits: "str_nat 4000 = ''4000''"
    by code_simp
  show ?thesis
    by (simp add: stop_cmd_def wait_cmd_def run_cmd_def Let_def shell_cmd_def sudo_cmd_def
         env_const_def new_host_def digits)
qed

subsection \<open>Directories created and removed\<close>


















subsection \<open>What \<open>not (mounted|found)\<close> finds\<close>

lemma lits_simps:
  "lits [] = Eps" "lits (c # cs) = Seq (Atom (Lit c)) (lits cs)"
  by (simp_all add: lits_def)

lemma rmatch_lits_self:
  "rmatch (lits w) (w @ s, g) = [(s, g)]"
  by (induction w) (simp_all add: lits_simps)

lemma rmatch_lits_only:
  "(s', g') \<in> set (rmatch (lits w) (s, g)) \<Longrightarrow> s = w @ s' \<and> g' = g"
proof (induction w arbitrary: s)
  case Nil
  then show ?case by (simp add: lits_simps)
next
  case (Cons c cs)
  from Cons.prems obtain xs where s: "s = c # xs"
    and rest: "(s', g') \<in> set (rmatch (lits cs) (xs, g))"
    by (cases s) (auto simp: lits_simps split: if_splits)
  from Cons.IH [OF rest] show ?case
    by (simp add: s)
qed

text \<open>A search succeeds exactly when the pattern matches at some position of the text.\<close>

lemma re_search_iff:
  "re_search r s \<noteq> None \<longleftrightarrow> (\<exists>a b. s = a @ b \<and> rmatch r (b, Map.empty) \<noteq> [])"
proof (induction s)
  case Nil
  show ?case
    by (subst re_search.simps) (simp split: list.split prod.split)
next
  case (Cons x xs)
  show ?case
  proof (cases "rmatch r (x # xs, Map.empty)")
    case Nil
    then have "re_search r (x # xs) = re_search r xs"
      by (subst re_search.simps) simp
    moreover have "(\<exists>a b. x # xs = a @ b \<and> rmatch r (b, Map.empty) \<noteq> [])
        \<longleftrightarrow> (\<exists>a b. xs = a @ b \<and> rmatch r (b, Map.empty) \<noteq> [])"
    proof
      assume "\<exists>a b. x # xs = a @ b \<and> rmatch r (b, Map.empty) \<noteq> []"
      then obtain a b where ab: "x # xs = a @ b" "rmatch r (b, Map.empty) \<noteq> []"
        by blast
      with Nil have "a \<noteq> []"
        by auto
      then obtain a' where "a = x # a'" "xs = a' @ b"
        using ab(1) by (cases a) auto
      with ab(2) show "\<exists>a b. xs = a @ b \<and> rmatch r (b, Map.empty) \<noteq> []"
        by blast
    next
      assume "\<exists>a b. xs = a @ b \<and> rmatch r (b, Map.empty) \<noteq> []"
      then obtain a b where "xs = a @ b" "rmatch r (b, Map.empty) \<noteq> []"
        by blast
      then have "x # xs = (x # a) @ b \<and> rmatch r (b, Map.empty) \<noteq> []"
        by simp
      then show "\<exists>a b. x # xs = a @ b \<and> rmatch r (b, Map.empty) \<noteq> []"
        by blast
    qed
    ultimately show ?thesis
      using Cons.IH by simp
  next
    case (Cons m ms)
    then have "re_search r (x # xs) \<noteq> None"
      by (subst re_search.simps) (simp split: prod.split)
    moreover have "x # xs = [] @ (x # xs) \<and> rmatch r (x # xs, Map.empty) \<noteq> []"
      using Cons by simp
    ultimately show ?thesis
      by blast
  qed
qed

lemma not_mounted_re_at:
  "rmatch not_mounted_re (s, g) \<noteq> [] \<longleftrightarrow> (\<exists>b. s = ''not mounted'' @ b \<or> s = ''not found'' @ b)"
proof
  assume "rmatch not_mounted_re (s, g) \<noteq> []"
  then obtain s' g' where "(s', g') \<in> set (rmatch not_mounted_re (s, g))"
    by (cases "rmatch not_mounted_re (s, g)") auto
  from rmatch_lits [OF this [unfolded not_mounted_re_def]] obtain rest where
    s: "s = ''not '' @ rest"
    and m: "(s', g') \<in> set (rmatch (Group 1 (Alt (lits ''mounted'') (lits ''found''))) (rest, g))"
    by blast
  from rmatch_GroupD [OF m] obtain g0 where
    "(s', g0) \<in> set (rmatch (lits ''mounted'') (rest, g)) \<or> (s', g0) \<in> set (rmatch (lits ''found'') (rest, g))"
    by auto
  then have "rest = ''mounted'' @ s' \<or> rest = ''found'' @ s'"
    using rmatch_lits_only by blast
  then show "\<exists>b. s = ''not mounted'' @ b \<or> s = ''not found'' @ b"
    unfolding s by auto
next
  assume "\<exists>b. s = ''not mounted'' @ b \<or> s = ''not found'' @ b"
  then obtain b where "s = ''not '' @ (''mounted'' @ b) \<or> s = ''not '' @ (''found'' @ b)"
    by auto
  then show "rmatch not_mounted_re (s, g) \<noteq> []"
    unfolding not_mounted_re_def
    using rmatch_lits_self [of "''not ''" _ g] rmatch_lits_self [of "''mounted''" b g]
      rmatch_lits_self [of "''found''" b g]
    by auto
qed

text \<open>
  The search of \<open>umount\<close> succeeds exactly on the texts that contain \<open>not mounted\<close> or
  \<open>not found\<close>.
\<close>

lemma not_mounted_re_search:
  "re_search not_mounted_re s \<noteq> None
     \<longleftrightarrow> (\<exists>a b. s = a @ ''not mounted'' @ b \<or> s = a @ ''not found'' @ b)"
  unfolding re_search_iff not_mounted_re_at by blast

subsection \<open>Objects of new processes are new\<close>

lemma reg_ok_update [simp]:
  "reg_ok (s\<lparr>checkmtpoint := a\<rparr>) t = reg_ok s t"
  "reg_ok (s\<lparr>invalidmtpoint := a\<rparr>) t = reg_ok s t"
  "reg_ok (s\<lparr>mtpoint_created := a\<rparr>) t = reg_ok s t"
  "reg_ok (s\<lparr>mtdir := b\<rparr>) t = reg_ok s t"
  "reg_ok (s\<lparr>mtpoint := b\<rparr>) t = reg_ok s t"
  "reg_ok (s\<lparr>mounted := c\<rparr>) t = reg_ok s t"
  "reg_ok (s\<lparr>need_network_reset := c\<rparr>) t = reg_ok s t"
  "reg_ok (s\<lparr>process_smap := d\<rparr>) t = reg_ok s t"
  by (simp_all add: reg_ok_def)

lemma reg_ok_grow:
  "reg_ok s t \<Longrightarrow> reg_ok s (t @ ev)"
  by (auto simp: reg_ok_def)

lemma reg_ok_remove:
  "reg_ok s t \<Longrightarrow> reg_ok (s\<lparr>process_list := remove1 p (process_list s)\<rparr>) t"
  by (auto simp: reg_ok_def dest: notin_set_remove1)

lemma run_cmd_reg:
  "reg_ok s t \<Longrightarrow>
     reg_ok (fst (snd (run_cmd e s cmd sd dl msg w t))) (snd (snd (run_cmd e s cmd sd dl msg w t)))"
  unfolding run_cmd_def Let_def shell_cmd_reset
  by (auto simp add: split_beta reg_ok_def less_Suc_eq)

lemma probe_mtpoint_reg:
  "reg_ok s t \<Longrightarrow>
     reg_ok (fst (snd (snd (probe_mtpoint e s mp t)))) (snd (snd (snd (probe_mtpoint e s mp t))))"
  unfolding probe_mtpoint_def Let_def
  by (simp add: split_beta run_cmd_reg reg_ok_grow)

lemma check_mtpoint_reg:
  "reg_ok s t \<Longrightarrow>
     reg_ok (fst (snd (check_mtpoint e s mp t))) (snd (snd (check_mtpoint e s mp t)))"
  unfolding check_mtpoint_def
  by (simp add: split_beta run_cmd_reg probe_mtpoint_reg split: sum.split)

lemma create_datadir_reg:
  "reg_ok s t \<Longrightarrow>
     reg_ok (fst (snd (create_datadir e s t))) (snd (snd (create_datadir e s t)))"
  unfolding create_datadir_def Let_def
  by (simp add: split_beta run_cmd_reg reg_ok_grow split: sum.split)

lemma mount_reg:
  "reg_ok s t \<Longrightarrow> reg_ok (fst (snd (mount e s kw t))) (snd (snd (mount e s kw t)))"
  unfolding mount_def Let_def
  by (simp add: split_beta run_cmd_reg check_mtpoint_reg create_datadir_reg split: sum.split)

lemma umount_loop_reg:
  "reg_ok s t \<Longrightarrow> reg_ok (fst (umount_loop e cmd n s t)) (snd (umount_loop e cmd n s t))"
proof (induction n arbitrary: s t)
  case 0
  then show ?case by simp
next
  case (Suc n)
  have "reg_ok (fst (snd (run_cmd e s cmd True (Some ''DBG2'') ''Unmount volume: '' True (t @ [Sleep 1]))))
      (snd (snd (run_cmd e s cmd True (Some ''DBG2'') ''Unmount volume: '' True (t @ [Sleep 1]))))"
    using Suc.prems by (intro run_cmd_reg reg_ok_grow)
  then show ?case
    using Suc.IH by (simp add: split_beta)
qed

lemma umount_reg:
  "reg_ok s t \<Longrightarrow> reg_ok (fst (snd (umount e s t))) (snd (snd (umount e s t)))"
  unfolding umount_def
  by (simp add: split_beta umount_loop_reg check_mtpoint_reg reg_ok_grow split: sum.split)

lemma network_reg:
  "reg_ok s t \<Longrightarrow>
     reg_ok (fst (snd (network_drop e s ip pt t))) (snd (snd (network_drop e s ip pt t)))"
  "reg_ok s t \<Longrightarrow> reg_ok (fst (network_reset e s t)) (snd (network_reset e s t))"
  "reg_ok s t \<Longrightarrow> reg_ok (fst (snd (get_route e s ip t))) (snd (snd (get_route e s ip t)))"
  unfolding network_drop_def network_reset_def get_route_def
  by (simp_all add: split_beta run_cmd_reg split: sum.split option.split)

lemma wait_loop_reg:
  "reg_ok s t \<Longrightarrow>
     reg_ok (fst (snd (wait_loop e tm msg plist dl out s t)))
       (snd (snd (wait_loop e tm msg plist dl out s t)))"
proof (induction plist arbitrary: tm dl out s t)
  case Nil
  then show ?case by simp
next
  case (Cons proc plist)
  have k: "reg_ok (fst (snd (run_cmd e s c True d msg True t))) (snd (snd (run_cmd e s c True d msg True t)))"
    for c d
    using Cons.prems by (rule run_cmd_reg)
  have l: "process_list (fst (snd (run_cmd e s c True d msg True t))) = process_list s" for c d
    by (simp add: run_cmd_wait_registry)
  show ?case
    using Cons.prems k
    by (auto simp add: Let_def split_beta l Cons.IH reg_ok_grow reg_ok_remove
          reg_ok_remove [where s = "fst (snd (run_cmd e s c True d msg True t))" for c d, unfolded l]
        split: sum.split)
qed

lemma wait_cmd_reg:
  "reg_ok s t \<Longrightarrow>
     reg_ok (fst (snd (wait_cmd e s proc tm dl msg t))) (snd (snd (wait_cmd e s proc tm dl msg t)))"
  unfolding wait_cmd_def Let_def by (rule wait_loop_reg)

lemma step_reg:
  "step e x y \<Longrightarrow> reg_ok (fst x) (snd x) \<Longrightarrow> reg_ok (fst y) (snd y)"
proof (induction rule: step.induct)
  case (step_run_cmd s cmd use_sudo dlevel msg wait t r s' t')
  from run_cmd_reg [of s t e cmd use_sudo dlevel msg wait] step_run_cmd show ?case by simp
next
  case (step_wait_cmd s proc terminate dlevel msg t r s' t')
  from wait_cmd_reg [of s t e proc terminate dlevel msg] step_wait_cmd show ?case by simp
next
  case (step_stop_cmd s proc dlevel msg t r s' t')
  from wait_cmd_reg [of s t e proc True dlevel msg] step_stop_cmd show ?case
    by (simp add: stop_cmd_def)
next
  case (step_check_mtpoint s mp t r s' t')
  from check_mtpoint_reg [of s t e mp] step_check_mtpoint show ?case by simp
next
  case (step_mount s kw t r s' t')
  from mount_reg [of s t e kw] step_mount show ?case by simp
next
  case (step_umount s t r s' t')
  from umount_reg [of s t e] step_umount show ?case by simp
next
  case (step_network_drop s ipaddr port1 t r s' t')
  from network_reg(1) [of s t e ipaddr port1] step_network_drop show ?case by simp
next
  case (step_network_reset s t s' t')
  from network_reg(2) [of s t e] step_network_reset show ?case by simp
next
  case (step_get_route s ipaddr t r3 s' t')
  from network_reg(3) [of s t e ipaddr] step_get_route show ?case by simp
qed

text \<open>
  In every state a session reaches from a new \<open>Host\<close> object, the object of a process
  that is started next is not in \<open>process_list\<close>.
\<close>

lemma started_process_is_new:
  assumes "(step e)\<^sup>*\<^sup>* (new_host h, []) (s, t)"
  shows "Popen_obj (length t) n \<notin> set (process_list s)"
proof -
  have "reg_ok (fst (new_host h, [])) (snd (new_host h, []::event list))"
    by (simp add: reg_ok_def new_host_def)
  with assms have "reg_ok (fst (s, t)) (snd (s, t))"
    by (induction rule: rtranclp_induct) (auto dest: step_reg)
  then show ?thesis
    by (auto simp: reg_ok_def)
qed

end
